theory Spec2Isabelle
  imports Main
begin

text \<open>
  The remote configuration client: the class \<open>ConfigClient\<close> fetches a configuration
  from an ordered list of endpoints, passes it through a validator, a transformer and a
  consumer callback, writes it to a cache and polls on a timer; an override replaces all
  of this by a fixed configuration. The theory embeds the class (\<open>ConfigClient.ts\<close>)
  with its errors and default providers, and proves properties of the endpoint resolver
  \<open>tryFetch\<close>, of the pipeline of \<open>refresh\<close>, of override mode and of the polling timer.
\<close>

section \<open>JavaScript values and promises\<close>

text \<open>
  A configuration is an opaque payload of the generic type \<open>T\<close>; at run time it is a
  JavaScript value, and the client only ever tests such a value for truthiness
  (\<open>if (data)\<close>, \<open>a || b\<close>). Numbers are modelled as integers, so the only falsy
  number is \<open>0\<close>.
\<close>

datatype jsval =
    JUndefined
  | JNull
  | JBool bool
  | JNum int
  | JStr string
  | JArr "jsval list"
  | JObj "(string \<times> jsval) list"

fun truthy :: "jsval \<Rightarrow> bool" where
  "truthy JUndefined = False"
| "truthy JNull = False"
| "truthy (JBool b) = b"
| "truthy (JNum n) = (n \<noteq> 0)"
| "truthy (JStr s) = (s \<noteq> [])"
| "truthy (JArr xs) = True"
| "truthy (JObj kvs) = True"

text \<open>The operator \<open>a || b\<close> on values.\<close>

definition js_or :: "jsval \<Rightarrow> jsval \<Rightarrow> jsval" where
  "js_or a b = (if truthy a then a else b)"

text \<open>
  An awaited provider call either resolves with a value or raises (throws synchronously or
  rejects; \<open>try { await f() } catch\<close> does not tell the two apart). JavaScript can throw
  any value.
\<close>

datatype 'a outcome = Resolves 'a | Raises jsval

fun wins :: "jsval outcome \<Rightarrow> bool" where
  "wins (Resolves d) = truthy d"
| "wins (Raises e) = False"

section \<open>Errors and events\<close>

datatype ConfigurationUndefinedError = ConfigurationUndefinedError string

datatype FetchError = FetchError jsval string

datatype ConfigurationFailedError = ConfigurationFailedError "string list"

datatype ConfigurationEventStatus = Error | Loaded | Updated | Equal | Cached

text \<open>
  \<open>tryFetch\<close> returns an object with the fields \<open>endpoint\<close>, \<open>configuration\<close> and
  \<open>error\<close>; a \<open>ConfigurationEvent\<close> has these and a \<open>status\<close>. An absent optional
  field is \<open>None\<close>, or \<open>JUndefined\<close> for the configuration.
\<close>

record fetched =
  endpoint :: "string option"
  configuration :: jsval
  error :: "ConfigurationFailedError option"

record ConfigurationEvent = fetched +
  status :: ConfigurationEventStatus

section \<open>Providers, the client object and the runtime\<close>

text \<open>
  Providers are caller-supplied functions. Their own state (the network, the storage
  behind a cache, whatever a callback closes over) is the world \<open>'w\<close>, which every
  provider call may read and change. Fetch, validator and consumer callback may raise;
  the cache, the reporting callbacks, the transformer and the equality test have result
  types without a failure (\<open>void\<close>, \<open>boolean\<close>, \<open>T | undefined\<close>) and are total here.
\<close>

record 'w CacheProvider =
  cache_read :: "'w \<Rightarrow> jsval \<times> 'w"
  cache_write :: "jsval \<Rightarrow> 'w \<Rightarrow> 'w"

text \<open>The fields of the class \<open>ConfigClient\<close>, in the order of their declaration.\<close>

record 'w ConfigClient =
  override :: jsval
  interval :: "int option"
  timeoutId :: "nat option"
  endpoints :: "string list"
  cache :: "'w CacheProvider"
  fetch :: "string \<Rightarrow> 'w \<Rightarrow> jsval outcome \<times> 'w"
  equality :: "jsval \<Rightarrow> jsval \<Rightarrow> bool"
  transformer :: "jsval \<Rightarrow> jsval"
  validator :: "jsval \<Rightarrow> 'w \<Rightarrow> unit outcome \<times> 'w"
  callback :: "ConfigurationEvent \<Rightarrow> 'w \<Rightarrow> jsval outcome \<times> 'w"
  onFetchError :: "FetchError \<Rightarrow> 'w \<Rightarrow> 'w"
  onValidationError :: "jsval \<Rightarrow> jsval \<Rightarrow> 'w \<Rightarrow> 'w"
  onUndefinedError :: "ConfigurationUndefinedError \<Rightarrow> 'w \<Rightarrow> 'w"
  loaded :: bool
  paused :: bool

text \<open>
  The call log records every provider and timer call the client makes, in order, as the
  mock functions of the repository's tests do.
\<close>

datatype effect =
    Fetch string "jsval outcome"
  | FetchErrorReport FetchError
  | UndefinedReport ConfigurationUndefinedError
  | Validate jsval
  | ValidationErrorReport jsval jsval
  | CacheRead
  | CacheWrite jsval
  | Callback ConfigurationEvent
  | SetTimeout nat int
  | ClearTimeout nat

text \<open>
  The runtime holds the world, the timers that are live (set, neither cleared nor fired
  yet), the next timer handle and the call log.
\<close>

record 'w runtime =
  world :: 'w
  timers :: "nat list"
  next_handle :: nat
  trace :: "effect list"

definition setTimeout :: "int \<Rightarrow> 'w runtime \<Rightarrow> nat \<times> 'w runtime" where
  "setTimeout ms r =
     (next_handle r,
      r\<lparr>timers := timers r @ [next_handle r],
        next_handle := Suc (next_handle r),
        trace := trace r @ [SetTimeout (next_handle r) ms]\<rparr>)"

definition clearTimeout :: "nat \<Rightarrow> 'w runtime \<Rightarrow> 'w runtime" where
  "clearTimeout h r =
     r\<lparr>timers := removeAll h (timers r), trace := trace r @ [ClearTimeout h]\<rparr>"

section \<open>The endpoint resolver\<close>

text \<open>
  The loop of \<open>tryFetch\<close>, with its variables \<open>endpoints\<close> (the copy that \<open>shift\<close>
  consumes) and \<open>data\<close>; the result is the final \<open>ep\<close> and \<open>data\<close>. \<open>shift\<close> on the
  empty list gives \<open>undefined\<close>, and \<open>if (ep)\<close> is false for it and for the empty string.
  A fetch that raises leaves \<open>data\<close> as it was.
\<close>

fun tryFetch_loop ::
  "'w ConfigClient \<Rightarrow> string list \<Rightarrow> jsval \<Rightarrow> 'w runtime \<Rightarrow> (string option \<times> jsval) \<times> 'w runtime"
where
  "tryFetch_loop c [] data r = ((None, data), r)"
| "tryFetch_loop c (ep # eps) data r =
     (if ep = [] then ((Some ep, data), r)
      else
        (case fetch c ep (world r) of
          (Resolves d, w) \<Rightarrow>
            (if truthy d
             then ((Some ep, d), r\<lparr>world := w, trace := trace r @ [Fetch ep (Resolves d)]\<rparr>)
             else tryFetch_loop c eps d
               (r\<lparr>world := onUndefinedError c (ConfigurationUndefinedError ep) w,
                  trace := trace r @
                    [Fetch ep (Resolves d), UndefinedReport (ConfigurationUndefinedError ep)]\<rparr>))
        | (Raises e, w) \<Rightarrow>
            tryFetch_loop c eps data
              (r\<lparr>world := onFetchError c (FetchError e ep) w,
                 trace := trace r @ [Fetch ep (Raises e), FetchErrorReport (FetchError e ep)]\<rparr>)))"

definition tryFetch :: "'w ConfigClient \<Rightarrow> 'w runtime \<Rightarrow> fetched \<times> 'w runtime" where
  "tryFetch c r =
     (case tryFetch_loop c (endpoints c) JUndefined r of
       ((ep, data), r') \<Rightarrow>
         (\<lparr>endpoint = ep,
           configuration = data,
           error = (if truthy data then None
                    else Some (ConfigurationFailedError (endpoints c)))\<rparr>,
          r'))"

section \<open>Polling\<close>

text \<open>
  \<open>setPolling(start)\<close>. A timer handle is truthy (a positive number in a browser, an
  object in Node), so \<open>if (this.timeoutId)\<close> asks whether a handle was ever stored. The
  delay is in milliseconds.
\<close>

definition setPolling ::
  "bool \<Rightarrow> 'w ConfigClient \<Rightarrow> 'w runtime \<Rightarrow> 'w ConfigClient \<times> 'w runtime"
where
  "setPolling start c r =
     (if start \<and> (case interval c of None \<Rightarrow> False | Some i \<Rightarrow> i \<noteq> 0 \<and> i > 0)
      then (case setTimeout (the (interval c) * 1000) r of
              (h, r') \<Rightarrow> (c\<lparr>timeoutId := Some h\<rparr>, r'))
      else (case timeoutId c of
              Some h \<Rightarrow> (c, clearTimeout h r)
            | None \<Rightarrow> (c, r)))"

definition pause :: "'w ConfigClient \<Rightarrow> 'w runtime \<Rightarrow> 'w ConfigClient \<times> 'w runtime" where
  "pause c r = setPolling False (c\<lparr>paused := True\<rparr>) r"

definition resume :: "'w ConfigClient \<Rightarrow> 'w runtime \<Rightarrow> 'w ConfigClient \<times> 'w runtime" where
  "resume c r = setPolling True (c\<lparr>paused := False\<rparr>) r"

section \<open>Override, refresh and getConfiguration\<close>

text \<open>
  An asynchronous method returns a promise: \<open>Inr\<close> the event it resolves with, \<open>Inl\<close> the
  value it rejects with. Each call runs to completion before the next operation on the
  client starts (calls that overlap on the event loop are not modelled).
\<close>

type_synonym 'w result = "(jsval + ConfigurationEvent) \<times> 'w ConfigClient \<times> 'w runtime"

definition getOverride :: "'w ConfigClient \<Rightarrow> 'w runtime \<Rightarrow> 'w result" where
  "getOverride c r =
     (let ev = \<lparr>endpoint = None, configuration = override c, error = None, status = Cached\<rparr>
      in case callback c ev (world r) of
           (Raises e, w) \<Rightarrow> (Inl e, c, r\<lparr>world := w, trace := trace r @ [Callback ev]\<rparr>)
         | (Resolves v, w) \<Rightarrow>
             (Inr (ev\<lparr>configuration := js_or v (override c)\<rparr>),
              c\<lparr>loaded := True\<rparr>,
              r\<lparr>world := w, trace := trace r @ [Callback ev]\<rparr>))"

text \<open>The \<open>try\<close>/\<open>catch\<close> around the validator in \<open>refresh\<close>.\<close>

definition validate :: "'w ConfigClient \<Rightarrow> jsval \<Rightarrow> 'w runtime \<Rightarrow> 'w runtime" where
  "validate c data r =
     (case validator c data (world r) of
        (Resolves u, w) \<Rightarrow> r\<lparr>world := w, trace := trace r @ [Validate data]\<rparr>
      | (Raises validationError, w) \<Rightarrow>
          r\<lparr>world := onValidationError c validationError data w,
            trace := trace r @ [Validate data, ValidationErrorReport validationError data]\<rparr>)"

text \<open>The event \<open>ev\<close> that \<open>refresh\<close> builds from \<open>source\<close>, \<open>target\<close> and \<open>hasChanged\<close>.\<close>

definition pipeline_event ::
  "'w ConfigClient \<Rightarrow> fetched \<Rightarrow> jsval \<Rightarrow> ConfigurationEvent"
where
  "pipeline_event c res source =
     (let target = transformer c (configuration res);
          hasChanged = (\<not> equality c source target)
      in \<lparr>endpoint = endpoint res,
          configuration = target,
          error = None,
          status = (if \<not> loaded c then Loaded else if hasChanged then Updated else Equal)\<rparr>)"

text \<open>
  \<open>refresh\<close> after the resolver returned without an error: validation, cache read,
  transformation, comparison, consumer callback, cache write, loaded flag, polling.
  \<open>cache.write\<close> is called and not awaited.
\<close>

definition pipeline :: "'w ConfigClient \<Rightarrow> fetched \<Rightarrow> 'w runtime \<Rightarrow> 'w result" where
  "pipeline c res r =
     (let r1 = validate c (configuration res) r in
      case cache_read (cache c) (world r1) of
        (source, w) \<Rightarrow>
          (let ev = pipeline_event c res source;
               r2 = r1\<lparr>world := w, trace := trace r1 @ [CacheRead]\<rparr>
           in case callback c ev (world r2) of
                (Raises e, w') \<Rightarrow> (Inl e, c, r2\<lparr>world := w', trace := trace r2 @ [Callback ev]\<rparr>)
              | (Resolves v, w') \<Rightarrow>
                  (let final = js_or v (configuration ev);
                       r3 = r2\<lparr>world := cache_write (cache c) final w',
                              trace := trace r2 @ [Callback ev, CacheWrite final]\<rparr>;
                       c1 = c\<lparr>loaded := True\<rparr>
                   in case (if \<not> paused c1 then setPolling True c1 r3 else (c1, r3)) of
                        (c2, r4) \<Rightarrow> (Inr (ev\<lparr>configuration := final\<rparr>), c2, r4))))"

definition refresh :: "'w ConfigClient \<Rightarrow> 'w runtime \<Rightarrow> 'w result" where
  "refresh c r =
     (if truthy (override c) then getOverride c r
      else
        (case setPolling False c r of
           (c1, r1) \<Rightarrow>
             (case tryFetch c1 r1 of
                (res, r2) \<Rightarrow>
                  (case error res of
                     Some err \<Rightarrow>
                       (Inr \<lparr>endpoint = endpoint res, configuration = JUndefined,
                             error = Some err, status = Error\<rparr>,
                        c1, r2)
                   | None \<Rightarrow> pipeline c1 res r2))))"

definition getConfiguration :: "'w ConfigClient \<Rightarrow> 'w runtime \<Rightarrow> 'w result" where
  "getConfiguration c r =
     (if truthy (override c) then getOverride c r
      else
        (case cache_read (cache c) (world r) of
           (source, w) \<Rightarrow>
             (let r1 = r\<lparr>world := w, trace := trace r @ [CacheRead]\<rparr>
              in if truthy source
                 then (Inr \<lparr>endpoint = None, configuration = source, error = None,
                            status = Cached\<rparr>,
                       c, r1)
                 else refresh c r1)))"

section \<open>Default providers and the constructor\<close>

definition defaultTransformer :: "jsval \<Rightarrow> jsval" where
  "defaultTransformer config = (if truthy config then config else JUndefined)"

text \<open>
  \<open>defaultValidator\<close> resolves with \<open>config ? config : undefined\<close>; \<open>refresh\<close> drops the
  value a validator resolves with (\<open>ValidationProvider\<close> returns \<open>Promise<void>\<close>).
\<close>

definition defaultValidator :: "jsval \<Rightarrow> 'w \<Rightarrow> unit outcome \<times> 'w" where
  "defaultValidator config w = (Resolves (), w)"

text \<open>
  What the defaults use and the repository does not define: the global \<open>fetch\<close> followed
  by \<open>response.json()\<close>, lodash's \<open>isEqual\<close>, and the place in the world where the
  private field \<open>cache\<close> of the \<open>DefaultCacheProvider\<close> instance is stored.
\<close>

record 'w platform =
  http_get_json :: "string \<Rightarrow> 'w \<Rightarrow> jsval outcome \<times> 'w"
  isEqual :: "jsval \<Rightarrow> jsval \<Rightarrow> bool"
  field_get :: "'w \<Rightarrow> jsval"
  field_set :: "jsval \<Rightarrow> 'w \<Rightarrow> 'w"

definition defaultFetchProvider :: "'w platform \<Rightarrow> string \<Rightarrow> 'w \<Rightarrow> jsval outcome \<times> 'w" where
  "defaultFetchProvider pf url w = http_get_json pf url w"

text \<open>\<open>new DefaultCacheProvider()\<close> sets the field to \<open>undefined\<close>.\<close>

definition DefaultCacheProvider :: "'w platform \<Rightarrow> 'w \<Rightarrow> 'w CacheProvider \<times> 'w" where
  "DefaultCacheProvider pf w =
     (\<lparr>cache_read = (\<lambda>w'. (field_get pf w', w')),
       cache_write = (\<lambda>v w'. field_set pf v w')\<rparr>,
      field_set pf JUndefined w)"

text \<open>What a logging provider can be handed by the client.\<close>

datatype logged =
    LoggedFetchError FetchError
  | LoggedUndefinedError ConfigurationUndefinedError
  | LoggedValue jsval

record 'w ConfigurationClientOptions =
  opt_endpoints :: "string list option"
  opt_callback :: "(ConfigurationEvent \<Rightarrow> 'w \<Rightarrow> jsval outcome \<times> 'w) option"
  opt_override :: jsval
  opt_interval :: "int option"
  opt_log :: "(logged list \<Rightarrow> 'w \<Rightarrow> 'w) option"
  opt_cache :: "'w CacheProvider option"
  opt_fetch :: "(string \<Rightarrow> 'w \<Rightarrow> jsval outcome \<times> 'w) option"
  opt_transformer :: "(jsval \<Rightarrow> jsval) option"
  opt_equality :: "(jsval \<Rightarrow> jsval \<Rightarrow> bool) option"
  opt_validator :: "(jsval \<Rightarrow> 'w \<Rightarrow> unit outcome \<times> 'w) option"
  opt_onConfigurationUndefined :: "(ConfigurationUndefinedError \<Rightarrow> 'w \<Rightarrow> 'w) option"
  opt_onFetchError :: "(FetchError \<Rightarrow> 'w \<Rightarrow> 'w) option"
  opt_onValidationError :: "(jsval \<Rightarrow> jsval \<Rightarrow> 'w \<Rightarrow> 'w) option"
  opt_initialize :: bool

datatype 'w OptionsError = OptionsError string "'w ConfigurationClientOptions"

text \<open>\<open>x || d\<close> for an optional member \<open>x\<close> of the options.\<close>

definition or_default :: "'a option \<Rightarrow> 'a \<Rightarrow> 'a" where
  "or_default x d = (case x of Some v \<Rightarrow> v | None \<Rightarrow> d)"

text \<open>
  The constructor. \<open>this.endpoints\<close> is an array and so truthy: the first check is the
  test for the empty list. With \<open>initialize\<close> the constructor calls \<open>refresh\<close> and drops
  the promise.
\<close>

definition ConfigClient_new ::
  "'w platform \<Rightarrow> 'w ConfigurationClientOptions \<Rightarrow> 'w runtime \<Rightarrow>
     'w OptionsError + ('w ConfigClient \<times> 'w runtime)"
where
  "ConfigClient_new pf options r =
     (let the_log = or_default (opt_log options) (\<lambda>data w. w);
          eps = or_default (opt_endpoints options) []
      in case (case opt_cache options of
                 Some cp \<Rightarrow> (cp, world r)
               | None \<Rightarrow> DefaultCacheProvider pf (world r)) of
           (the_cache, w) \<Rightarrow>
             (if length eps = 0 then Inl (OptionsError ''Missing endpoints'' options)
              else
                (case opt_callback options of
                   None \<Rightarrow> Inl (OptionsError ''Missing callback method'' options)
                 | Some cb \<Rightarrow>
                     (let c = \<lparr>override = opt_override options,
                               interval = (case opt_interval options of
                                             None \<Rightarrow> None
                                           | Some i \<Rightarrow> if i = 0 then None else Some i),
                               timeoutId = None,
                               endpoints = eps,
                               cache = the_cache,
                               fetch = or_default (opt_fetch options) (defaultFetchProvider pf),
                               equality = or_default (opt_equality options) (isEqual pf),
                               transformer =
                                 or_default (opt_transformer options) defaultTransformer,
                               validator = or_default (opt_validator options) defaultValidator,
                               callback = cb,
                               onFetchError =
                                 or_default (opt_onFetchError options)
                                   (\<lambda>err. the_log [LoggedFetchError err]),
                               onValidationError =
                                 or_default (opt_onValidationError options)
                                   (\<lambda>err config. the_log [LoggedValue err, LoggedValue config]),
                               onUndefinedError =
                                 or_default (opt_onConfigurationUndefined options)
                                   (\<lambda>err. the_log [LoggedUndefinedError err]),
                               loaded = False,
                               paused = False\<rparr>;
                          r1 = r\<lparr>world := w\<rparr>
                      in if opt_initialize options
                         then Inr (snd (refresh c r1))
                         else Inr (c, r1)))))"

section \<open>Sequences of operations\<close>

text \<open>
  What can happen to a client: its four public methods, a live timer that elapses (the
  runtime drops it and calls \<open>() => this.refresh()\<close>; a handle that is not live does
  nothing), and, between two of these, any change of the world that is not the client's
  doing. The events the methods return are dropped here.
\<close>

datatype 'w operation =
    GetConfiguration
  | Refresh
  | Pause
  | Resume
  | TimerFires nat
  | WorldChanges "'w \<Rightarrow> 'w"

fun step ::
  "'w operation \<Rightarrow> 'w ConfigClient \<times> 'w runtime \<Rightarrow> 'w ConfigClient \<times> 'w runtime"
where
  "step GetConfiguration (c, r) = snd (getConfiguration c r)"
| "step Refresh (c, r) = snd (refresh c r)"
| "step Pause (c, r) = pause c r"
| "step Resume (c, r) = resume c r"
| "step (TimerFires h) (c, r) =
     (if h \<in> set (timers r) then snd (refresh c (r\<lparr>timers := removeAll h (timers r)\<rparr>))
      else (c, r))"
| "step (WorldChanges f) (c, r) = (c, r\<lparr>world := f (world r)\<rparr>)"

fun run ::
  "'w operation list \<Rightarrow> 'w ConfigClient \<times> 'w runtime \<Rightarrow> 'w ConfigClient \<times> 'w runtime"
where
  "run [] s = s"
| "run (op # ops) s = run ops (step op s)"

section \<open>Reading the call log\<close>

text \<open>The endpoints fetched, in order.\<close>

fun fetch_of :: "effect \<Rightarrow> string list" where
  "fetch_of (Fetch ep out) = [ep]"
| "fetch_of e = []"

definition fetches :: "effect list \<Rightarrow> string list" where
  "fetches tr = concat (map fetch_of tr)"

text \<open>The endpoints reported to \<open>onFetchError\<close> or \<open>onUndefinedError\<close>, in order.\<close>

fun report_of :: "effect \<Rightarrow> string list" where
  "report_of (FetchErrorReport (FetchError e ep)) = [ep]"
| "report_of (UndefinedReport (ConfigurationUndefinedError ep)) = [ep]"
| "report_of e = []"

definition reports :: "effect list \<Rightarrow> string list" where
  "reports tr = concat (map report_of tr)"

fun validation_of :: "effect \<Rightarrow> jsval list" where
  "validation_of (Validate d) = [d]"
| "validation_of e = []"

definition validations :: "effect list \<Rightarrow> jsval list" where
  "validations tr = concat (map validation_of tr)"

fun validation_report_of :: "effect \<Rightarrow> (jsval \<times> jsval) list" where
  "validation_report_of (ValidationErrorReport e d) = [(e, d)]"
| "validation_report_of e = []"

definition validation_reports :: "effect list \<Rightarrow> (jsval \<times> jsval) list" where
  "validation_reports tr = concat (map validation_report_of tr)"

fun cache_read_of :: "effect \<Rightarrow> unit list" where
  "cache_read_of CacheRead = [()]"
| "cache_read_of e = []"

definition cache_reads :: "effect list \<Rightarrow> nat" where
  "cache_reads tr = length (concat (map cache_read_of tr))"

fun cache_write_of :: "effect \<Rightarrow> jsval list" where
  "cache_write_of (CacheWrite v) = [v]"
| "cache_write_of e = []"

definition cache_writes :: "effect list \<Rightarrow> jsval list" where
  "cache_writes tr = concat (map cache_write_of tr)"

fun callback_of :: "effect \<Rightarrow> ConfigurationEvent list" where
  "callback_of (Callback ev) = [ev]"
| "callback_of e = []"

definition callbacks :: "effect list \<Rightarrow> ConfigurationEvent list" where
  "callbacks tr = concat (map callback_of tr)"

fun timeout_of :: "effect \<Rightarrow> (nat \<times> int) list" where
  "timeout_of (SetTimeout h ms) = [(h, ms)]"
| "timeout_of e = []"

definition timeouts_set :: "effect list \<Rightarrow> (nat \<times> int) list" where
  "timeouts_set tr = concat (map timeout_of tr)"

fun cleared_of :: "effect \<Rightarrow> nat list" where
  "cleared_of (ClearTimeout h) = [h]"
| "cleared_of e = []"

definition timeouts_cleared :: "effect list \<Rightarrow> nat list" where
  "timeouts_cleared tr = concat (map cleared_of tr)"

text \<open>
  What one endpoint that does not win leaves in the log: its fetch, then one report,
  \<open>onUndefinedError\<close> after a falsy value and \<open>onFetchError\<close> after a raise.
\<close>

fun failed_attempt :: "string \<Rightarrow> jsval outcome \<Rightarrow> effect list" where
  "failed_attempt ep (Resolves d) =
     [Fetch ep (Resolves d), UndefinedReport (ConfigurationUndefinedError ep)]"
| "failed_attempt ep (Raises e) =
     [Fetch ep (Raises e), FetchErrorReport (FetchError e ep)]"

text \<open>The effects of the resolver: fetches and their reports.\<close>

fun resolver_effect :: "effect \<Rightarrow> bool" where
  "resolver_effect (Fetch ep out) = True"
| "resolver_effect (FetchErrorReport err) = True"
| "resolver_effect (UndefinedReport err) = True"
| "resolver_effect e = False"

text \<open>The value of the last fetch in a log that resolved, \<open>d\<close> if none did.\<close>

fun last_resolved :: "jsval \<Rightarrow> effect list \<Rightarrow> jsval" where
  "last_resolved d [] = d"
| "last_resolved d (Fetch ep (Resolves v) # es) = last_resolved v es"
| "last_resolved d (e # es) = last_resolved d es"

text \<open>The number of runs of the pipeline that went through to the cache write.\<close>

definition completed_runs :: "effect list \<Rightarrow> nat" where
  "completed_runs tr = length (cache_writes tr)"

section \<open>A client to run\<close>

text \<open>
  A client in the manner of the repository's tests: three endpoints, of which the first
  raises (as every address but the other two does), the second resolves with the empty
  string and the third resolves with the test configuration; a cache of one slot, which
  is the whole world; a consumer callback that returns the configuration it is given.
\<close>

definition testConfig :: jsval where
  "testConfig = JObj [(''flag'', JBool True)]"

definition alteredConfig :: jsval where
  "alteredConfig = JObj [(''flag'', JBool False)]"

definition slot_platform :: "jsval platform" where
  "slot_platform =
     \<lparr>http_get_json = (\<lambda>url w. (Raises (JStr ''offline''), w)),
      isEqual = (\<lambda>a b. a = b),
      field_get = (\<lambda>w. w),
      field_set = (\<lambda>v w. v)\<rparr>"

definition demo_fetch :: "string \<Rightarrow> jsval \<Rightarrow> jsval outcome \<times> jsval" where
  "demo_fetch url w =
     (if url = ''c'' then (Resolves testConfig, w)
      else if url = ''b'' then (Resolves (JStr []), w)
      else (Raises (JStr ''Not Found''), w))"

definition echo_callback :: "ConfigurationEvent \<Rightarrow> jsval \<Rightarrow> jsval outcome \<times> jsval" where
  "echo_callback ev w = (Resolves (configuration ev), w)"

definition silent_callback :: "ConfigurationEvent \<Rightarrow> jsval \<Rightarrow> jsval outcome \<times> jsval" where
  "silent_callback ev w = (Resolves JUndefined, w)"

definition altering_callback :: "ConfigurationEvent \<Rightarrow> jsval \<Rightarrow> jsval outcome \<times> jsval" where
  "altering_callback ev w = (Resolves alteredConfig, w)"

definition raising_callback :: "ConfigurationEvent \<Rightarrow> jsval \<Rightarrow> jsval outcome \<times> jsval" where
  "raising_callback ev w = (Raises (JStr ''callback failed''), w)"

definition failing_validator :: "jsval \<Rightarrow> jsval \<Rightarrow> unit outcome \<times> jsval" where
  "failing_validator config w = (Raises (JStr ''Validation Error''), w)"


definition demo_options :: "jsval ConfigurationClientOptions" where
  "demo_options =
     \<lparr>opt_endpoints = Some [''a'', ''b'', ''c''],
      opt_callback = Some echo_callback,
      opt_override = JUndefined,
      opt_interval = None,
      opt_log = None,
      opt_cache = None,
      opt_fetch = Some demo_fetch,
      opt_transformer = None,
      opt_equality = None,
      opt_validator = None,
      opt_onConfigurationUndefined = None,
      opt_onFetchError = None,
      opt_onValidationError = None,
      opt_initialize = False\<rparr>"

definition fresh_runtime :: "jsval runtime" where
  "fresh_runtime = \<lparr>world = JUndefined, timers = [], next_handle = 1, trace = []\<rparr>"

text \<open>The client that the constructor builds from these options.\<close>

definition demo_client :: "jsval ConfigClient" where
  "demo_client =
     \<lparr>override = JUndefined,
      interval = None,
      timeoutId = None,
      endpoints = [''a'', ''b'', ''c''],
      cache = \<lparr>cache_read = (\<lambda>w. (w, w)), cache_write = (\<lambda>v w. v)\<rparr>,
      fetch = demo_fetch,
      equality = (\<lambda>a b. a = b),
      transformer = defaultTransformer,
      validator = defaultValidator,
      callback = echo_callback,
      onFetchError = (\<lambda>err w. w),
      onValidationError = (\<lambda>err config w. w),
      onUndefinedError = (\<lambda>err w. w),
      loaded = False,
      paused = False\<rparr>"

text \<open>Variations: endpoint lists, callbacks, a validator, a transformer, overrides, polling.\<close>

definition failing_client :: "jsval ConfigClient" where
  "failing_client = demo_client\<lparr>endpoints := [''a'', ''b'']\<rparr>"

definition blank_first_client :: "jsval ConfigClient" where
  "blank_first_client = demo_client\<lparr>endpoints := [[], ''c'']\<rparr>"

definition altering_client :: "jsval ConfigClient" where
  "altering_client = demo_client\<lparr>callback := altering_callback\<rparr>"

definition unvalidated_client :: "jsval ConfigClient" where
  "unvalidated_client = demo_client\<lparr>validator := failing_validator\<rparr>"


definition override_client :: "jsval ConfigClient" where
  "override_client = demo_client\<lparr>override := alteredConfig, callback := silent_callback\<rparr>"

definition raising_override_client :: "jsval ConfigClient" where
  "raising_override_client =
     demo_client\<lparr>override := alteredConfig, callback := raising_callback\<rparr>"

definition falsy_override_client :: "jsval ConfigClient" where
  "falsy_override_client = demo_client\<lparr>override := JNum 0\<rparr>"

definition polling_client :: "jsval ConfigClient" where
  "polling_client = demo_client\<lparr>interval := Some 5\<rparr>"

text \<open>What the resolver returns for the three endpoints, and the runtime it leaves.\<close>

definition demo_fetched :: fetched where
  "demo_fetched = \<lparr>endpoint = Some ''c'', configuration = testConfig, error = None\<rparr>"

definition demo_fetched_runtime :: "jsval runtime" where
  "demo_fetched_runtime =
     \<lparr>world = JUndefined, timers = [], next_handle = 1,
      trace =
        [Fetch ''a'' (Raises (JStr ''Not Found'')),
         FetchErrorReport (FetchError (JStr ''Not Found'') ''a''),
         Fetch ''b'' (Resolves (JStr [])),
         UndefinedReport (ConfigurationUndefinedError ''b''),
         Fetch ''c'' (Resolves testConfig)]\<rparr>"

section \<open>The call log of the resolver\<close>

lemma fetches_append [simp]: "fetches (a @ b) = fetches a @ fetches b"
  by (simp add: fetches_def)

lemma tryFetch_loop_log:
  "\<exists>d. trace (snd (tryFetch_loop c eps data r)) = trace r @ d
     \<and> list_all resolver_effect d
     \<and> snd (fst (tryFetch_loop c eps data r)) = last_resolved data d
     \<and> timers (snd (tryFetch_loop c eps data r)) = timers r
     \<and> next_handle (snd (tryFetch_loop c eps data r)) = next_handle r"
proof (induction eps arbitrary: data r)
  case Nil
  show ?case by simp
next
  case (Cons ep eps)
  show ?case
  proof (cases "ep = []")
    case True
    then show ?thesis by simp
  next
    case False
    obtain out w where f: "fetch c ep (world r) = (out, w)"
      by (cases "fetch c ep (world r)")
    show ?thesis
    proof (cases out)
      case (Resolves d)
      show ?thesis
      proof (cases "truthy d")
        case True
        with False f Resolves show ?thesis
          by (simp add: exI [of _ "[Fetch ep (Resolves d)]"])
      next
        case nt: False
        let ?r = "r\<lparr>world := onUndefinedError c (ConfigurationUndefinedError ep) w,
                    trace := trace r @ failed_attempt ep (Resolves d)\<rparr>"
        from Cons.IH [of d ?r] obtain d' where
          d': "trace (snd (tryFetch_loop c eps d ?r)) = trace ?r @ d'"
              "list_all resolver_effect d'"
              "snd (fst (tryFetch_loop c eps d ?r)) = last_resolved d d'"
              "timers (snd (tryFetch_loop c eps d ?r)) = timers ?r"
              "next_handle (snd (tryFetch_loop c eps d ?r)) = next_handle ?r"
          by blast
        from False f Resolves nt d' show ?thesis
          by (simp add: exI [of _ "failed_attempt ep (Resolves d) @ d'"])
      qed
    next
      case (Raises e)
      let ?r = "r\<lparr>world := onFetchError c (FetchError e ep) w,
                  trace := trace r @ failed_attempt ep (Raises e)\<rparr>"
      from Cons.IH [of data ?r] obtain d' where
        d': "trace (snd (tryFetch_loop c eps data ?r)) = trace ?r @ d'"
            "list_all resolver_effect d'"
            "snd (fst (tryFetch_loop c eps data ?r)) = last_resolved data d'"
            "timers (snd (tryFetch_loop c eps data ?r)) = timers ?r"
            "next_handle (snd (tryFetch_loop c eps data ?r)) = next_handle ?r"
        by blast
      from False f Raises d' show ?thesis
        by (simp add: exI [of _ "failed_attempt ep (Raises e) @ d'"])
    qed
  qed
qed


lemma tryFetch_loop_no_winner:
  assumes "\<forall>ep\<in>set eps. \<forall>w. \<not> wins (fst (fetch c ep w))" and "\<not> truthy data"
  shows "\<not> truthy (snd (fst (tryFetch_loop c eps data r)))"
  using assms
proof (induction eps arbitrary: data r)
  case Nil
  then show ?case by simp
next
  case (Cons ep eps)
  obtain out w where f: "fetch c ep (world r) = (out, w)"
    by (cases "fetch c ep (world r)")
  from Cons.prems(1) have "\<not> wins (fst (fetch c ep (world r)))" by simp
  with f have nw: "\<not> wins out" by simp
  from Cons.prems(1) have rest: "\<forall>ep\<in>set eps. \<forall>w. \<not> wins (fst (fetch c ep w))" by simp
  show ?case
  proof (cases out)
    case (Resolves d)
    with nw have "\<not> truthy d" by simp
    with f Resolves Cons.prems(2) Cons.IH [OF rest] show ?thesis by simp
  next
    case (Raises e)
    with f Cons.prems(2) Cons.IH [OF rest] show ?thesis by simp
  qed
qed

lemma tryFetch_loop_failing_prefix:
  assumes "\<forall>ep\<in>set pre. ep \<noteq> [] \<and> (\<forall>w. \<not> wins (fst (fetch c ep w)))"
  shows "\<exists>outs data' r'.
           length outs = length pre
         \<and> list_all (\<lambda>out. \<not> wins out) outs
         \<and> trace r' = trace r @ concat (map2 failed_attempt pre outs)
         \<and> timers r' = timers r
         \<and> next_handle r' = next_handle r
         \<and> (\<forall>rest. tryFetch_loop c (pre @ rest) data r = tryFetch_loop c rest data' r')"
  using assms
proof (induction pre arbitrary: data r)
  case Nil
  show ?case
    by (rule exI [of _ "[]"], rule exI [of _ data], rule exI [of _ r]) simp
next
  case (Cons ep pre)
  obtain out w where f: "fetch c ep (world r) = (out, w)"
    by (cases "fetch c ep (world r)")
  from Cons.prems have ne: "ep \<noteq> []" and "\<not> wins (fst (fetch c ep (world r)))" by simp_all
  with f have nw: "\<not> wins out" by simp
  from Cons.prems have rest: "\<forall>ep\<in>set pre. ep \<noteq> [] \<and> (\<forall>w. \<not> wins (fst (fetch c ep w)))"
    by simp
  define d1 where "d1 = (case out of Resolves d \<Rightarrow> d | Raises e \<Rightarrow> data)"
  define w1 where "w1 = (case out of
      Resolves d \<Rightarrow> onUndefinedError c (ConfigurationUndefinedError ep) w
    | Raises e \<Rightarrow> onFetchError c (FetchError e ep) w)"
  define r1 where "r1 = r\<lparr>world := w1, trace := trace r @ failed_attempt ep out\<rparr>"
  have step: "tryFetch_loop c ((ep # pre) @ rest) data r = tryFetch_loop c (pre @ rest) d1 r1"
    for rest
    using ne f nw by (cases out) (simp_all add: d1_def w1_def r1_def)
  from Cons.IH [OF rest, of r1 d1] obtain outs data' r' where
    ih: "length outs = length pre" "list_all (\<lambda>out. \<not> wins out) outs"
        "trace r' = trace r1 @ concat (map2 failed_attempt pre outs)"
        "timers r' = timers r1" "next_handle r' = next_handle r1"
        "\<forall>rest. tryFetch_loop c (pre @ rest) d1 r1 = tryFetch_loop c rest data' r'"
    by blast
  show ?case
    apply (rule exI [of _ "out # outs"], rule exI [of _ data'], rule exI [of _ r'])
    using ih nw step by (simp add: r1_def)
qed


lemma fetches_failed_attempts:
  "length outs = length pre \<Longrightarrow> fetches (concat (map2 failed_attempt pre outs)) = pre"
proof (induction pre arbitrary: outs)
  case Nil then show ?case by (simp add: fetches_def)
next
  case (Cons ep pre)
  then obtain out outs' where "outs = out # outs'" by (cases outs) auto
  with Cons show ?case by (cases out) (simp_all add: fetches_def)
qed

lemma reports_append [simp]: "reports (a @ b) = reports a @ reports b"
  by (simp add: reports_def)


lemma tryFetch_no_winner:
  assumes "\<forall>ep\<in>set (endpoints c). \<forall>w. \<not> wins (fst (fetch c ep w))"
  shows "error (fst (tryFetch c r)) = Some (ConfigurationFailedError (endpoints c))"
  using tryFetch_loop_no_winner [OF assms, of JUndefined r]
  by (cases "tryFetch_loop c (endpoints c) JUndefined r") (auto simp: tryFetch_def)

section \<open>The resolver stops at the first truthy value\<close>




text \<open>Unfolding the test client.\<close>

lemmas demo_defs =
  demo_client_def demo_fetch_def echo_callback_def defaultTransformer_def defaultValidator_def
  testConfig_def fresh_runtime_def


section \<open>The resolver when no endpoint wins\<close>

text \<open>
  An endpoint that is the empty string: \<open>if (ep)\<close> is false for it as it is for the
  \<open>undefined\<close> that \<open>shift\<close> returns at the end of the list, so the loop ends there,
  and \<open>ep\<close> is the empty string.
\<close>

lemma tryFetch_blank_endpoint:
  "fst (fetch blank_first_client [] JUndefined) = Raises (JStr ''Not Found'')
   \<and> fst (fetch blank_first_client ''c'' JUndefined) = Resolves testConfig
   \<and> truthy testConfig
   \<and> tryFetch blank_first_client fresh_runtime =
       (\<lparr>endpoint = Some [], configuration = JUndefined,
         error = Some (ConfigurationFailedError [[], ''c''])\<rparr>,
        fresh_runtime)"
  by (simp add: blank_first_client_def tryFetch_def demo_defs)

text \<open>The value of \<open>data\<close> read off the log of the run.\<close>

lemma last_resolved_none:
  "\<forall>ep v. Fetch ep (Resolves v) \<notin> set d \<Longrightarrow> last_resolved x d = x"
  by (induction x d rule: last_resolved.induct) simp_all

lemma last_resolved_append:
  "last_resolved x (a @ b) = last_resolved (last_resolved x a) b"
  by (induction x a rule: last_resolved.induct) simp_all

lemma last_resolved_last:
  "\<forall>ep' v'. Fetch ep' (Resolves v') \<notin> set d2 \<Longrightarrow>
     last_resolved x (d1 @ Fetch ep (Resolves v) # d2) = v"
  by (simp add: last_resolved_append last_resolved_none)

text \<open>
  Claim C9, as amended. If the fetch of every endpoint raises or resolves with a falsy
  value, \<open>tryFetch\<close> returns a \<open>ConfigurationFailedError\<close> that carries the whole
  endpoint list, and as configuration the value of \<open>data\<close>, which is falsy: it is the
  value that the last fetch of the run that resolved resolved with (the empty string,
  for instance, or \<open>undefined\<close> itself), and it is \<open>undefined\<close> if no fetch of the run
  resolved. If no endpoint is the empty string, every endpoint was fetched and the
  returned endpoint is \<open>undefined\<close>.
\<close>

theorem tryFetch_exhausted:
  assumes fail: "\<forall>ep\<in>set (endpoints c). \<forall>w. \<not> wins (fst (fetch c ep w))"
  shows "\<exists>res r' d.
           tryFetch c r = (res, r')
         \<and> error res = Some (ConfigurationFailedError (endpoints c))
         \<and> \<not> truthy (configuration res)
         \<and> trace r' = trace r @ d
         \<and> configuration res = last_resolved JUndefined d
         \<and> (\<forall>d1 ep v d2.
               d = d1 @ Fetch ep (Resolves v) # d2
               \<and> (\<forall>ep' v'. Fetch ep' (Resolves v') \<notin> set d2)
               \<longrightarrow> configuration res = v)
         \<and> ((\<forall>ep v. Fetch ep (Resolves v) \<notin> set d) \<longrightarrow> configuration res = JUndefined)
         \<and> ([] \<notin> set (endpoints c) \<longrightarrow> endpoint res = None \<and> fetches d = endpoints c)"
proof -
  let ?run = "tryFetch_loop c (endpoints c) JUndefined r"
  obtain ep data r' where run: "?run = ((ep, data), r')"
    by (cases ?run) auto
  from tryFetch_loop_log [of c "endpoints c" JUndefined r] run
  obtain d where d: "trace r' = trace r @ d" "data = last_resolved JUndefined d"
    by auto
  from tryFetch_loop_no_winner [OF fail, of JUndefined r] run
  have falsy: "\<not> truthy data" by simp
  have named: "ep = None \<and> fetches d = endpoints c" if ne: "[] \<notin> set (endpoints c)"
  proof -
    from ne fail
    have "\<forall>ep\<in>set (endpoints c). ep \<noteq> [] \<and> (\<forall>w. \<not> wins (fst (fetch c ep w)))"
      by metis
    from tryFetch_loop_failing_prefix [OF this, of r JUndefined]
    obtain outs data' r1 where
      p: "length outs = length (endpoints c)"
         "trace r1 = trace r @ concat (map2 failed_attempt (endpoints c) outs)"
         "\<forall>rest. tryFetch_loop c (endpoints c @ rest) JUndefined r = tryFetch_loop c rest data' r1"
      by blast
    from p(3) [rule_format, of "[]"] run have "ep = None" "r' = r1" by simp_all
    with p(2) d(1) have "d = concat (map2 failed_attempt (endpoints c) outs)" by simp
    with p(1) \<open>ep = None\<close> show ?thesis by (simp add: fetches_failed_attempts)
  qed
  show ?thesis
    apply (rule exI [of _ "\<lparr>endpoint = ep, configuration = data,
        error = Some (ConfigurationFailedError (endpoints c))\<rparr>"])
    apply (rule exI [of _ r'], rule exI [of _ d])
    using run d falsy named
    by (simp add: tryFetch_def last_resolved_last last_resolved_none)
qed

theorem tryFetch_exhausted_witness:
  "\<exists>res r' d.
     tryFetch failing_client fresh_runtime = (res, r')
   \<and> error res = Some (ConfigurationFailedError [''a'', ''b''])
   \<and> \<not> truthy (configuration res)
   \<and> trace r' = trace fresh_runtime @ d
   \<and> configuration res = last_resolved JUndefined d
   \<and> endpoint res = None \<and> fetches d = [''a'', ''b'']"
  using tryFetch_exhausted [of failing_client fresh_runtime]
  by (simp add: failing_client_def demo_defs, blast)

text \<open>
  The claim as it was stated has the configuration \<open>undefined\<close>. For the endpoints \<open>a\<close>
  (raises) and \<open>b\<close> (resolves with the empty string), \<open>tryFetch\<close> returns the empty
  string.
\<close>

theorem tryFetch_exhausted_counterexample:
  "fst (tryFetch failing_client fresh_runtime) =
     \<lparr>endpoint = None, configuration = JStr [],
      error = Some (ConfigurationFailedError [''a'', ''b''])\<rparr>"
  by (simp add: failing_client_def tryFetch_def demo_defs)

section \<open>Reading the call log: rules\<close>

lemma validations_append [simp]: "validations (a @ b) = validations a @ validations b"
  by (simp add: validations_def)

lemma validation_reports_append [simp]:
  "validation_reports (a @ b) = validation_reports a @ validation_reports b"
  by (simp add: validation_reports_def)

lemma cache_reads_append [simp]: "cache_reads (a @ b) = cache_reads a + cache_reads b"
  by (simp add: cache_reads_def)

lemma cache_writes_append [simp]: "cache_writes (a @ b) = cache_writes a @ cache_writes b"
  by (simp add: cache_writes_def)

lemma callbacks_append [simp]: "callbacks (a @ b) = callbacks a @ callbacks b"
  by (simp add: callbacks_def)

lemma timeouts_set_append [simp]: "timeouts_set (a @ b) = timeouts_set a @ timeouts_set b"
  by (simp add: timeouts_set_def)

lemma log_nil [simp]:
  "fetches [] = []" "reports [] = []" "validations [] = []" "validation_reports [] = []"
  "cache_reads [] = 0" "cache_writes [] = []" "callbacks [] = []" "timeouts_set [] = []"
  by (simp_all add: fetches_def reports_def validations_def validation_reports_def
      cache_reads_def cache_writes_def callbacks_def timeouts_set_def)

lemma log_cons [simp]:
  "fetches (e # es) = fetch_of e @ fetches es"
  "reports (e # es) = report_of e @ reports es"
  "validations (e # es) = validation_of e @ validations es"
  "validation_reports (e # es) = validation_report_of e @ validation_reports es"
  "cache_reads (e # es) = length (cache_read_of e) + cache_reads es"
  "cache_writes (e # es) = cache_write_of e @ cache_writes es"
  "callbacks (e # es) = callback_of e @ callbacks es"
  "timeouts_set (e # es) = timeout_of e @ timeouts_set es"
  by (simp_all add: fetches_def reports_def validations_def validation_reports_def
      cache_reads_def cache_writes_def callbacks_def timeouts_set_def)

lemma resolver_effect_silent:
  "resolver_effect e \<Longrightarrow>
     validation_of e = [] \<and> validation_report_of e = [] \<and> cache_read_of e = []
   \<and> cache_write_of e = [] \<and> callback_of e = [] \<and> timeout_of e = []"
  by (cases e) simp_all

lemma resolver_log_silent:
  "list_all resolver_effect d \<Longrightarrow>
     validations d = [] \<and> validation_reports d = [] \<and> cache_reads d = 0
   \<and> cache_writes d = [] \<and> callbacks d = [] \<and> timeouts_set d = []"
  by (induction d) (simp_all add: resolver_effect_silent)

section \<open>What each part of refresh adds to the call log\<close>

lemma setPolling_False:
  "setPolling False c r = (c, case timeoutId c of Some h \<Rightarrow> clearTimeout h r | None \<Rightarrow> r)"
  by (simp add: setPolling_def split: option.splits)

lemma setPolling_False_log:
  "\<exists>d. trace (snd (setPolling False c r)) = trace r @ d
     \<and> validations d = [] \<and> validation_reports d = [] \<and> cache_reads d = 0
     \<and> cache_writes d = [] \<and> callbacks d = [] \<and> timeouts_set d = [] \<and> fetches d = []"
  by (cases "timeoutId c") (simp_all add: setPolling_False clearTimeout_def)

lemma tryFetch_log:
  "\<exists>d. trace (snd (tryFetch c r)) = trace r @ d \<and> list_all resolver_effect d
     \<and> timers (snd (tryFetch c r)) = timers r
     \<and> next_handle (snd (tryFetch c r)) = next_handle r"
  using tryFetch_loop_log [of c "endpoints c" JUndefined r]
  by (auto simp: tryFetch_def split: prod.splits)

lemma tryFetch_error_iff:
  "tryFetch c r = (res, r') \<Longrightarrow>
     error res = (if truthy (configuration res) then None
                  else Some (ConfigurationFailedError (endpoints c)))"
  by (auto simp: tryFetch_def split: prod.splits)

text \<open>A run that returns no error has logged the fetch of the value it returns.\<close>

lemma last_resolved_logged:
  "last_resolved d0 d \<noteq> d0 \<Longrightarrow> \<exists>ep. Fetch ep (Resolves (last_resolved d0 d)) \<in> set d"
proof (induction d0 d rule: last_resolved.induct)
  case (2 d ep v es)
  then show ?case by (cases "last_resolved v es = v") auto
qed auto

lemma tryFetch_winner_logged:
  assumes run: "tryFetch c r = (res, r')"
    and log: "trace r' = trace r @ d"
    and ok: "error res = None"
  shows "\<exists>ep. Fetch ep (Resolves (configuration res)) \<in> set d \<and> truthy (configuration res)"
proof -
  let ?L = "tryFetch_loop c (endpoints c) JUndefined r"
  from run have r': "r' = snd ?L" and cfg: "configuration res = snd (fst ?L)"
    by (cases ?L; auto simp: tryFetch_def)+
  from tryFetch_error_iff [OF run] ok have t: "truthy (configuration res)"
    by (simp split: if_splits)
  from tryFetch_loop_log [of c "endpoints c" JUndefined r] r' log cfg
  have "configuration res = last_resolved JUndefined d" by auto
  moreover from this t have "last_resolved JUndefined d \<noteq> JUndefined" by auto
  ultimately show ?thesis
    using last_resolved_logged [of JUndefined d] t by simp
qed

lemma refresh_plain:
  "\<not> truthy (override c) \<Longrightarrow>
     refresh c r =
       (case tryFetch c (snd (setPolling False c r)) of
          (res, r2) \<Rightarrow>
            (case error res of
               Some err \<Rightarrow>
                 (Inr \<lparr>endpoint = endpoint res, configuration = JUndefined,
                       error = Some err, status = Error\<rparr>,
                  c, r2)
             | None \<Rightarrow> pipeline c res r2))"
  by (simp add: refresh_def setPolling_False)

section \<open>Refresh when every endpoint fails\<close>

text \<open>
  Claim C2. Let the client have no truthy override, and let the fetch of every endpoint
  raise or resolve with a falsy value. Then \<open>refresh\<close> returns (its promise resolves
  with) an event of status \<open>error\<close>, with no configuration and with a
  \<open>ConfigurationFailedError\<close> that carries the whole configured endpoint list. In that
  run the cache is neither written nor read, the validator and the consumer callback are
  not called, no timer is set, and the fields of the client are as before.
\<close>

theorem refresh_all_endpoints_fail:
  assumes plain: "\<not> truthy (override c)"
    and fail: "\<forall>ep\<in>set (endpoints c). \<forall>w. \<not> wins (fst (fetch c ep w))"
  shows "\<exists>ep r' d.
           refresh c r =
             (Inr \<lparr>endpoint = ep, configuration = JUndefined,
                   error = Some (ConfigurationFailedError (endpoints c)), status = Error\<rparr>,
              c, r')
         \<and> trace r' = trace r @ d
         \<and> cache_writes d = [] \<and> cache_reads d = 0
         \<and> validations d = [] \<and> callbacks d = []
         \<and> timeouts_set d = []"
proof -
  let ?r1 = "snd (setPolling False c r)"
  from setPolling_False_log [of c r] obtain d1 where
    d1: "trace ?r1 = trace r @ d1" "validations d1 = []" "cache_reads d1 = 0"
        "cache_writes d1 = []" "callbacks d1 = []" "timeouts_set d1 = []"
    by blast
  obtain res r2 where tf0: "tryFetch c ?r1 = (res, r2)"
    by (cases "tryFetch c ?r1")
  from tryFetch_no_winner [OF fail, of ?r1] tf0
  have tf: "tryFetch c ?r1 = (res, r2)" "error res = Some (ConfigurationFailedError (endpoints c))"
    by simp_all
  from tryFetch_log [of c ?r1] tf(1) obtain d2 where
    d2: "trace r2 = trace ?r1 @ d2" "list_all resolver_effect d2"
    by auto
  have run: "refresh c r =
      (Inr \<lparr>endpoint = endpoint res, configuration = JUndefined,
            error = Some (ConfigurationFailedError (endpoints c)), status = Error\<rparr>, c, r2)"
    using tf by (simp add: refresh_plain [OF plain])
  show ?thesis
    apply (rule exI [of _ "endpoint res"], rule exI [of _ r2], rule exI [of _ "d1 @ d2"])
    using run d1 d2 resolver_log_silent [OF d2(2)] by simp
qed

text \<open>The endpoints \<open>a\<close> (raises) and \<open>b\<close> (resolves with the empty string).\<close>

theorem refresh_all_endpoints_fail_witness:
  "\<exists>ep r' d.
     refresh failing_client fresh_runtime =
       (Inr \<lparr>endpoint = ep, configuration = JUndefined,
             error = Some (ConfigurationFailedError [''a'', ''b'']), status = Error\<rparr>,
        failing_client, r')
   \<and> trace r' = trace fresh_runtime @ d
   \<and> cache_writes d = [] \<and> cache_reads d = 0
   \<and> validations d = [] \<and> callbacks d = []
   \<and> timeouts_set d = []"
  using refresh_all_endpoints_fail [of failing_client fresh_runtime]
  by (simp add: failing_client_def demo_defs)


section \<open>The pipeline after a winning fetch\<close>

lemma pipeline_event_fields [simp]:
  "endpoint (pipeline_event c res source) = endpoint res"
  "configuration (pipeline_event c res source) = transformer c (configuration res)"
  "error (pipeline_event c res source) = None"
  "status (pipeline_event c res source) =
     (if \<not> loaded c then Loaded
      else if \<not> equality c source (transformer c (configuration res)) then Updated
      else Equal)"
  by (simp_all add: pipeline_event_def Let_def)

lemma validate_log:
  "\<exists>d. trace (validate c dat r) = trace r @ Validate dat # d
     \<and> validation_reports d =
         (case fst (validator c dat (world r)) of Resolves u \<Rightarrow> [] | Raises e \<Rightarrow> [(e, dat)])
     \<and> validations d = [] \<and> cache_reads d = 0 \<and> cache_writes d = []
     \<and> callbacks d = [] \<and> timeouts_set d = [] \<and> fetches d = []"
proof (cases "validator c dat (world r)")
  case (Pair out w)
  then show ?thesis
    by (cases out) (simp_all add: validate_def)
qed

lemma setPolling_True_log:
  "\<exists>d. trace (snd (setPolling True c r)) = trace r @ d
     \<and> validations d = [] \<and> validation_reports d = [] \<and> cache_reads d = 0
     \<and> cache_writes d = [] \<and> callbacks d = [] \<and> fetches d = []
     \<and> world (snd (setPolling True c r)) = world r
     \<and> loaded (fst (setPolling True c r)) = loaded c
     \<and> override (fst (setPolling True c r)) = override c"
  by (simp add: setPolling_def setTimeout_def clearTimeout_def split: option.splits)

lemma pipeline_resolved:
  assumes rd: "cache_read (cache c) (world (validate c (configuration res) r)) = (source, w)"
    and cb: "callback c (pipeline_event c res source) w = (Resolves v, w')"
  shows "\<exists>c' r' t.
           pipeline c res r =
             (Inr ((pipeline_event c res source)
                     \<lparr>configuration := js_or v (transformer c (configuration res))\<rparr>),
              c', r')
         \<and> trace r' = trace (validate c (configuration res) r) @
             [CacheRead, Callback (pipeline_event c res source),
              CacheWrite (js_or v (transformer c (configuration res)))] @ t
         \<and> validations t = [] \<and> validation_reports t = [] \<and> cache_reads t = 0
         \<and> cache_writes t = [] \<and> callbacks t = [] \<and> fetches t = []
         \<and> world r' = cache_write (cache c) (js_or v (transformer c (configuration res))) w'
         \<and> loaded c' \<and> override c' = override c"
proof -
  let ?r1 = "validate c (configuration res) r"
  let ?ev = "pipeline_event c res source"
  let ?final = "js_or v (transformer c (configuration res))"
  let ?r3 = "?r1\<lparr>world := cache_write (cache c) ?final w',
                 trace := trace ?r1 @ [CacheRead, Callback ?ev, CacheWrite ?final]\<rparr>"
  let ?c1 = "c\<lparr>loaded := True\<rparr>"
  show ?thesis
  proof (cases "paused c")
    case True
    have "pipeline c res r = (Inr (?ev\<lparr>configuration := ?final\<rparr>), ?c1, ?r3)"
      using rd cb True by (simp add: pipeline_def Let_def)
    then show ?thesis
      by (intro exI [of _ ?c1] exI [of _ ?r3] exI [of _ "[]"]) simp
  next
    case False
    have run: "pipeline c res r =
        (Inr (?ev\<lparr>configuration := ?final\<rparr>),
         fst (setPolling True ?c1 ?r3), snd (setPolling True ?c1 ?r3))"
      using rd cb False by (simp add: pipeline_def Let_def split: prod.splits)
    from setPolling_True_log [of ?c1 ?r3] obtain t where
      t: "trace (snd (setPolling True ?c1 ?r3)) = trace ?r3 @ t"
         "validations t = []" "validation_reports t = []" "cache_reads t = 0"
         "cache_writes t = []" "callbacks t = []" "fetches t = []"
         "world (snd (setPolling True ?c1 ?r3)) = world ?r3"
         "loaded (fst (setPolling True ?c1 ?r3)) = loaded ?c1"
         "override (fst (setPolling True ?c1 ?r3)) = override ?c1"
      by blast
    show ?thesis
      apply (intro exI [of _ "fst (setPolling True ?c1 ?r3)"]
          exI [of _ "snd (setPolling True ?c1 ?r3)"] exI [of _ t])
      using run t by simp
  qed
qed

lemma pipeline_raised:
  assumes rd: "cache_read (cache c) (world (validate c (configuration res) r)) = (source, w)"
    and cb: "callback c (pipeline_event c res source) w = (Raises e, w')"
  shows "pipeline c res r =
           (Inl e, c,
            (validate c (configuration res) r)
              \<lparr>world := w',
               trace := trace (validate c (configuration res) r) @
                 [CacheRead, Callback (pipeline_event c res source)]\<rparr>)"
  using rd cb by (simp add: pipeline_def Let_def)

lemma refresh_winner:
  assumes plain: "\<not> truthy (override c)"
    and tf: "tryFetch c (snd (setPolling False c r)) = (res, r2)"
    and ok: "error res = None"
  shows "refresh c r = pipeline c res r2"
    and "\<exists>d. trace r2 = trace r @ d
          \<and> validations d = [] \<and> validation_reports d = [] \<and> cache_reads d = 0
          \<and> cache_writes d = [] \<and> callbacks d = [] \<and> timeouts_set d = []"
    and "truthy (configuration res)"
proof -
  show "refresh c r = pipeline c res r2"
    using tf ok by (simp add: refresh_plain [OF plain])
  from setPolling_False_log [of c r] obtain d1 where
    d1: "trace (snd (setPolling False c r)) = trace r @ d1" "validations d1 = []"
        "validation_reports d1 = []" "cache_reads d1 = 0"
        "cache_writes d1 = []" "callbacks d1 = []" "timeouts_set d1 = []"
    by blast
  from tryFetch_log [of c "snd (setPolling False c r)"] tf obtain d2 where
    d2: "trace r2 = trace (snd (setPolling False c r)) @ d2" "list_all resolver_effect d2"
    by auto
  show "\<exists>d. trace r2 = trace r @ d
          \<and> validations d = [] \<and> validation_reports d = [] \<and> cache_reads d = 0
          \<and> cache_writes d = [] \<and> callbacks d = [] \<and> timeouts_set d = []"
    using d1 d2 resolver_log_silent [OF d2(2)]
    by (intro exI [of _ "d1 @ d2"]) simp
  show "truthy (configuration res)"
    using tryFetch_error_iff [OF tf] ok by (simp split: if_splits)
qed


section \<open>The value the consumer callback returns\<close>

text \<open>
  Claim C5. Take a run of \<open>refresh\<close> without override in which the resolver returns a
  winner \<open>res\<close>, the cache read gives \<open>source\<close> and the consumer callback, called with
  the event of the pipeline, resolves with \<open>v\<close>. The transformed candidate is
  \<open>transformer (configuration res)\<close>; it is the configuration of the event the callback
  is given. If \<open>v\<close> is truthy, \<open>v\<close> is the one value written to the cache and the
  configuration of the event returned; if \<open>v\<close> is falsy, the transformed candidate is
  written and returned. All other fields of the returned event are those of the event the
  callback was given.
\<close>

theorem refresh_callback_replaces:
  assumes plain: "\<not> truthy (override c)"
    and tf: "tryFetch c (snd (setPolling False c r)) = (res, r2)"
    and ok: "error res = None"
    and rd: "cache_read (cache c) (world (validate c (configuration res) r2)) = (source, w)"
    and cb: "callback c (pipeline_event c res source) w = (Resolves v, w')"
  shows "\<exists>c' r' d.
           refresh c r =
             (Inr ((pipeline_event c res source)
                     \<lparr>configuration :=
                        (if truthy v then v else transformer c (configuration res))\<rparr>),
              c', r')
         \<and> trace r' = trace r @ d
         \<and> callbacks d = [pipeline_event c res source]
         \<and> configuration (pipeline_event c res source) = transformer c (configuration res)
         \<and> cache_writes d = [if truthy v then v else transformer c (configuration res)]
         \<and> world r' =
             cache_write (cache c)
               (if truthy v then v else transformer c (configuration res)) w'"
proof -
  from refresh_winner [OF plain tf ok] obtain d1 where
    run: "refresh c r = pipeline c res r2"
    and d1: "trace r2 = trace r @ d1" "cache_writes d1 = []" "callbacks d1 = []"
    by blast
  from validate_log [of c "configuration res" r2] obtain d2 where
    d2: "trace (validate c (configuration res) r2) = trace r2 @ Validate (configuration res) # d2"
        "cache_writes d2 = []" "callbacks d2 = []"
    by blast
  from pipeline_resolved [OF rd cb] obtain c' r' t where
    p: "pipeline c res r2 =
          (Inr ((pipeline_event c res source)
                  \<lparr>configuration := js_or v (transformer c (configuration res))\<rparr>), c', r')"
       "trace r' = trace (validate c (configuration res) r2) @
          [CacheRead, Callback (pipeline_event c res source),
           CacheWrite (js_or v (transformer c (configuration res)))] @ t"
       "cache_writes t = []" "callbacks t = []"
       "world r' = cache_write (cache c) (js_or v (transformer c (configuration res))) w'"
    by blast
  show ?thesis
    apply (intro exI [of _ c'] exI [of _ r'])
    apply (rule exI [of _ "d1 @ Validate (configuration res) # d2 @
        [CacheRead, Callback (pipeline_event c res source),
         CacheWrite (js_or v (transformer c (configuration res)))] @ t"])
    using run p d1 d2 by (simp add: js_or_def)
qed

text \<open>
  The test client (whatever its callback, validator and transformer) resolves to endpoint
  \<open>c\<close> from a fresh runtime.
\<close>

lemma demo_resolver:
  "tryFetch (demo_client\<lparr>callback := cb, validator := vd, transformer := tr\<rparr>)
     (snd (setPolling False (demo_client\<lparr>callback := cb, validator := vd, transformer := tr\<rparr>)
        fresh_runtime)) =
   (demo_fetched, demo_fetched_runtime)"
  by (simp add: setPolling_False tryFetch_def demo_defs demo_fetched_def
      demo_fetched_runtime_def)

text \<open>A callback that returns an altered configuration, as in the repository's test.\<close>

theorem refresh_callback_replaces_witness:
  "\<exists>c' r' d.
     refresh altering_client fresh_runtime =
       (Inr \<lparr>endpoint = Some ''c'', configuration = alteredConfig, error = None,
             status = Loaded\<rparr>, c', r')
   \<and> trace r' = trace fresh_runtime @ d
   \<and> callbacks d =
       [\<lparr>endpoint = Some ''c'', configuration = testConfig, error = None, status = Loaded\<rparr>]
   \<and> cache_writes d = [alteredConfig]
   \<and> world r' = alteredConfig"
proof -
  have tf: "tryFetch altering_client (snd (setPolling False altering_client fresh_runtime)) =
      (demo_fetched, demo_fetched_runtime)"
    using demo_resolver [where cb = altering_callback and vd = defaultValidator
        and tr = defaultTransformer]
    by (simp add: altering_client_def demo_client_def)
  have "\<not> truthy (override altering_client)" "error demo_fetched = None"
    by (simp_all add: altering_client_def demo_defs altering_callback_def alteredConfig_def demo_fetched_def)
  from refresh_callback_replaces [OF this(1) tf this(2),
      of JUndefined JUndefined alteredConfig JUndefined]
  show ?thesis
    by (simp add: altering_client_def demo_defs altering_callback_def alteredConfig_def demo_fetched_def demo_fetched_runtime_def
        validate_def pipeline_event_def)
qed


section \<open>A validator that raises\<close>

text \<open>
  Claim C7. Take a run of \<open>refresh\<close> without override in which the resolver returns a
  winner \<open>res\<close> and the validator raises \<open>ve\<close> on the raw value. The error is reported
  exactly once, to \<open>onValidationError\<close>, together with the raw value, and the validator
  is called once. The pipeline goes on: the cache is read once, the consumer callback is
  called once, with the event whose configuration is the transformed (unvalidated) value
  and whose status is computed from the loaded flag and the equality test alone. What
  \<open>refresh\<close> returns is decided by the consumer callback only: if it resolves, the event
  is returned and the final configuration is written to the cache; if it raises, the
  promise rejects with the value the callback raised, and nothing is written.
\<close>

theorem refresh_validation_failure:
  assumes plain: "\<not> truthy (override c)"
    and tf: "tryFetch c (snd (setPolling False c r)) = (res, r2)"
    and ok: "error res = None"
    and vd: "validator c (configuration res) (world r2) = (Raises ve, w1)"
    and rd: "cache_read (cache c) (onValidationError c ve (configuration res) w1) = (source, w)"
  shows "pipeline_event c res source =
           \<lparr>endpoint = endpoint res,
            configuration = transformer c (configuration res),
            error = None,
            status =
              (if \<not> loaded c then Loaded
               else if \<not> equality c source (transformer c (configuration res)) then Updated
               else Equal)\<rparr>
       \<and> (\<exists>result c' r' d.
           refresh c r = (result, c', r')
         \<and> trace r' = trace r @ d
         \<and> validations d = [configuration res]
         \<and> validation_reports d = [(ve, configuration res)]
         \<and> cache_reads d = 1
         \<and> callbacks d = [pipeline_event c res source]
         \<and> (case callback c (pipeline_event c res source) w of
               (Resolves v, w') \<Rightarrow>
                 result =
                   Inr ((pipeline_event c res source)
                          \<lparr>configuration := js_or v (transformer c (configuration res))\<rparr>)
                 \<and> cache_writes d = [js_or v (transformer c (configuration res))]
             | (Raises e, w') \<Rightarrow> result = Inl e \<and> cache_writes d = []))"
proof -
  let ?data = "configuration res"
  let ?ev = "pipeline_event c res source"
  from refresh_winner [OF plain tf ok] obtain d1 where
    run: "refresh c r = pipeline c res r2"
    and d1: "trace r2 = trace r @ d1" "validations d1 = []" "validation_reports d1 = []"
      "cache_reads d1 = 0" "cache_writes d1 = []" "callbacks d1 = []"
    by blast
  have val: "validate c ?data r2 =
      r2\<lparr>world := onValidationError c ve ?data w1,
         trace := trace r2 @ [Validate ?data, ValidationErrorReport ve ?data]\<rparr>"
    using vd by (simp add: validate_def)
  then have rd': "cache_read (cache c) (world (validate c ?data r2)) = (source, w)"
    using rd by simp
  have ev: "?ev = \<lparr>endpoint = endpoint res, configuration = transformer c ?data, error = None,
      status = (if \<not> loaded c then Loaded
                else if \<not> equality c source (transformer c ?data) then Updated else Equal)\<rparr>"
    by (simp add: pipeline_event_def Let_def)
  obtain out w' where cb: "callback c ?ev w = (out, w')"
    by (cases "callback c ?ev w")
  have "\<exists>result c' r' d.
           refresh c r = (result, c', r')
         \<and> trace r' = trace r @ d
         \<and> validations d = [configuration res]
         \<and> validation_reports d = [(ve, configuration res)]
         \<and> cache_reads d = 1
         \<and> callbacks d = [?ev]
         \<and> (case callback c ?ev w of
               (Resolves v, w') \<Rightarrow>
                 result = Inr (?ev\<lparr>configuration := js_or v (transformer c ?data)\<rparr>)
                 \<and> cache_writes d = [js_or v (transformer c ?data)]
             | (Raises e, w') \<Rightarrow> result = Inl e \<and> cache_writes d = [])"
  proof (cases out)
    case (Resolves v)
    from pipeline_resolved [OF rd' cb [unfolded Resolves]] obtain c' r' t where
      p: "pipeline c res r2 =
            (Inr (?ev\<lparr>configuration := js_or v (transformer c ?data)\<rparr>), c', r')"
         "trace r' = trace (validate c ?data r2) @
            [CacheRead, Callback ?ev, CacheWrite (js_or v (transformer c ?data))] @ t"
         "validations t = []" "validation_reports t = []" "cache_reads t = 0"
         "cache_writes t = []" "callbacks t = []"
      by blast
    show ?thesis
      apply (intro exI [of _ "Inr (?ev\<lparr>configuration := js_or v (transformer c ?data)\<rparr>)"]
          exI [of _ c'] exI [of _ r'])
      apply (rule exI [of _ "d1 @ [Validate ?data, ValidationErrorReport ve ?data] @
          [CacheRead, Callback ?ev, CacheWrite (js_or v (transformer c ?data))] @ t"])
      using run p d1 val cb Resolves by simp
  next
    case (Raises e)
    from pipeline_raised [OF rd' cb [unfolded Raises]]
    have p: "pipeline c res r2 =
        (Inl e, c,
         (validate c ?data r2)
           \<lparr>world := w', trace := trace (validate c ?data r2) @ [CacheRead, Callback ?ev]\<rparr>)" .
    show ?thesis
      apply (intro exI [of _ "Inl e"] exI [of _ c])
      apply (rule exI [of _ "(validate c ?data r2)
           \<lparr>world := w', trace := trace (validate c ?data r2) @ [CacheRead, Callback ?ev]\<rparr>"])
      apply (rule exI [of _ "d1 @ [Validate ?data, ValidationErrorReport ve ?data] @
          [CacheRead, Callback ?ev]"])
      using run p d1 val cb Raises by simp
  qed
  with ev show ?thesis by blast
qed

text \<open>A validator that always raises, as in the repository's test.\<close>

theorem refresh_validation_failure_witness:
  "\<exists>result c' r' d.
     refresh unvalidated_client fresh_runtime = (result, c', r')
   \<and> trace r' = trace fresh_runtime @ d
   \<and> validations d = [testConfig]
   \<and> validation_reports d = [(JStr ''Validation Error'', testConfig)]
   \<and> cache_reads d = 1
   \<and> callbacks d =
       [\<lparr>endpoint = Some ''c'', configuration = testConfig, error = None, status = Loaded\<rparr>]
   \<and> result =
       Inr \<lparr>endpoint = Some ''c'', configuration = testConfig, error = None, status = Loaded\<rparr>
   \<and> cache_writes d = [testConfig]"
proof -
  have tf: "tryFetch unvalidated_client (snd (setPolling False unvalidated_client fresh_runtime)) =
      (demo_fetched, demo_fetched_runtime)"
    using demo_resolver [where cb = echo_callback and vd = failing_validator
        and tr = defaultTransformer]
    by (simp add: unvalidated_client_def demo_client_def)
  have "\<not> truthy (override unvalidated_client)" "error demo_fetched = None"
    by (simp_all add: unvalidated_client_def demo_defs failing_validator_def demo_fetched_def)
  from refresh_validation_failure [OF this(1) tf this(2),
      of "JStr ''Validation Error''" JUndefined JUndefined JUndefined]
  show ?thesis
    by (simp add: unvalidated_client_def demo_defs failing_validator_def demo_fetched_def demo_fetched_runtime_def
        pipeline_event_def js_or_def)
qed

section \<open>The transformed candidate\<close>




section \<open>Override mode\<close>

text \<open>
  Claim C6, as amended. Let the override of the client be truthy. Then
  \<open>getConfiguration\<close> and \<open>refresh\<close> do the same: they call the consumer callback
  once, with the event \<open>{configuration: override, status: 'cached'}\<close>, and add nothing
  else to the call log (no fetch, no cache read, no cache write, no timer call); the
  timers are as before. If the callback resolves with \<open>v\<close>, they return an event of
  status \<open>cached\<close> whose configuration is \<open>v\<close> if \<open>v\<close> is truthy and the override
  otherwise, and the loaded flag is set. If the callback raises, the promise they return
  rejects with what it raised, no event is returned and the loaded flag is as before.
  The constructor stores the override option as it is and no method assigns the field
  (\<open>constructed_override\<close> below), so this is every client constructed with a truthy
  override, at any time. An event is a value here: the callback is given it and cannot
  assign to its fields.
\<close>

theorem override_short_circuit:
  assumes ov: "truthy (override c)"
  shows "(case callback c \<lparr>endpoint = None, configuration = override c, error = None,
                           status = Cached\<rparr> (world r) of
            (Resolves v, w) \<Rightarrow>
              getConfiguration c r =
                (Inr \<lparr>endpoint = None,
                      configuration = (if truthy v then v else override c),
                      error = None, status = Cached\<rparr>,
                 c\<lparr>loaded := True\<rparr>,
                 r\<lparr>world := w,
                   trace := trace r @
                     [Callback \<lparr>endpoint = None, configuration = override c, error = None,
                                status = Cached\<rparr>]\<rparr>)
          | (Raises e, w) \<Rightarrow>
              getConfiguration c r =
                (Inl e, c,
                 r\<lparr>world := w,
                   trace := trace r @
                     [Callback \<lparr>endpoint = None, configuration = override c, error = None,
                                status = Cached\<rparr>]\<rparr>))
       \<and> refresh c r = getConfiguration c r"
proof (cases "callback c \<lparr>endpoint = None, configuration = override c, error = None,
                           status = Cached\<rparr> (world r)")
  case (Pair out w)
  with ov show ?thesis
    by (cases out)
      (simp_all add: getConfiguration_def refresh_def getOverride_def js_or_def Let_def)
qed

text \<open>An override and a callback that returns nothing, as in the repository's tests.\<close>

theorem override_short_circuit_witness:
  "getConfiguration override_client fresh_runtime =
     (Inr \<lparr>endpoint = None, configuration = alteredConfig, error = None, status = Cached\<rparr>,
      override_client\<lparr>loaded := True\<rparr>,
      fresh_runtime
        \<lparr>world := JUndefined,
         trace := trace fresh_runtime @
           [Callback \<lparr>endpoint = None, configuration = alteredConfig, error = None,
                      status = Cached\<rparr>]\<rparr>)
   \<and> refresh override_client fresh_runtime = getConfiguration override_client fresh_runtime"
  using override_short_circuit [of override_client fresh_runtime]
  by (simp add: override_client_def demo_defs silent_callback_def alteredConfig_def)

text \<open>
  The claim as it was stated has every call return an event of status \<open>cached\<close> and set
  the loaded flag. With an override and a callback that raises, \<open>getConfiguration\<close> and
  \<open>refresh\<close> reject with what the callback raised, and the loaded flag stays unset.
\<close>

theorem override_raising_callback_counterexample:
  "truthy (override raising_override_client)
 \<and> getConfiguration raising_override_client fresh_runtime =
     (Inl (JStr ''callback failed''),
      raising_override_client,
      fresh_runtime
        \<lparr>trace :=
           [Callback \<lparr>endpoint = None, configuration = alteredConfig, error = None,
                      status = Cached\<rparr>]\<rparr>)
 \<and> refresh raising_override_client fresh_runtime =
     getConfiguration raising_override_client fresh_runtime
 \<and> \<not> loaded (fst (snd (getConfiguration raising_override_client fresh_runtime)))"
  by (simp add: getConfiguration_def refresh_def getOverride_def raising_override_client_def
      raising_callback_def alteredConfig_def demo_defs Let_def)

section \<open>The override field outside override mode\<close>

lemma tryFetch_loop_override [simp]:
  "tryFetch_loop (c\<lparr>override := x\<rparr>) eps data r = tryFetch_loop c eps data r"
  by (induction eps arbitrary: data r) (simp_all split: prod.splits outcome.splits)

lemma tryFetch_override [simp]: "tryFetch (c\<lparr>override := x\<rparr>) r = tryFetch c r"
  by (cases "tryFetch_loop c (endpoints c) JUndefined r") (auto simp: tryFetch_def)

lemma validate_override [simp]: "validate (c\<lparr>override := x\<rparr>) d r = validate c d r"
  by (cases "validator c d (world r)") (auto simp: validate_def split: outcome.splits)

lemma pipeline_event_override [simp]:
  "pipeline_event (c\<lparr>override := x\<rparr>) res source = pipeline_event c res source"
  by (simp add: pipeline_event_def)

lemma pipeline_override:
  "pipeline (c\<lparr>override := x\<rparr>) res r =
     (case pipeline c res r of (a, c', r') \<Rightarrow> (a, c'\<lparr>override := x\<rparr>, r'))"
  by (auto simp: pipeline_def Let_def setPolling_def setTimeout_def clearTimeout_def
      split: prod.splits outcome.splits option.splits)

lemma refresh_override:
  assumes "\<not> truthy (override c)" "\<not> truthy x"
  shows "refresh (c\<lparr>override := x\<rparr>) r =
     (case refresh c r of (a, c', r') \<Rightarrow> (a, c'\<lparr>override := x\<rparr>, r'))"
  using assms
  by (simp add: refresh_def setPolling_False pipeline_override
      split: prod.splits option.splits)

lemma getConfiguration_override:
  assumes "\<not> truthy (override c)" "\<not> truthy x"
  shows "getConfiguration (c\<lparr>override := x\<rparr>) r =
     (case getConfiguration c r of (a, c', r') \<Rightarrow> (a, c'\<lparr>override := x\<rparr>, r'))"
  using assms
  by (simp add: getConfiguration_def refresh_override Let_def split: prod.splits)


section \<open>What refresh and getConfiguration do to the loaded flag\<close>

lemma resolver_phase_log:
  "\<exists>d. trace (snd (tryFetch c (snd (setPolling False c r)))) = trace r @ d
     \<and> validations d = [] \<and> validation_reports d = [] \<and> cache_reads d = 0
     \<and> cache_writes d = [] \<and> callbacks d = [] \<and> timeouts_set d = []"
proof -
  from setPolling_False_log [of c r] obtain d1 where
    d1: "trace (snd (setPolling False c r)) = trace r @ d1" "validations d1 = []"
        "validation_reports d1 = []" "cache_reads d1 = 0"
        "cache_writes d1 = []" "callbacks d1 = []" "timeouts_set d1 = []"
    by blast
  from tryFetch_log [of c "snd (setPolling False c r)"] obtain d2 where
    d2: "trace (snd (tryFetch c (snd (setPolling False c r)))) =
           trace (snd (setPolling False c r)) @ d2"
        "list_all resolver_effect d2"
    by auto
  show ?thesis
    using d1 d2 resolver_log_silent [OF d2(2)]
    by (intro exI [of _ "d1 @ d2"]) simp
qed

lemma refresh_plain_log:
  assumes plain: "\<not> truthy (override c)"
  shows "\<exists>d. trace (snd (snd (refresh c r))) = trace r @ d
          \<and> list_all (\<lambda>ev. status ev \<noteq> Cached) (callbacks d)
          \<and> loaded (fst (snd (refresh c r))) = (loaded c \<or> cache_writes d \<noteq> [])
          \<and> override (fst (snd (refresh c r))) = override c"
proof -
  obtain res r2 where tf: "tryFetch c (snd (setPolling False c r)) = (res, r2)"
    by (cases "tryFetch c (snd (setPolling False c r))")
  from resolver_phase_log [of c r] tf obtain d1 where
    d1: "trace r2 = trace r @ d1" "cache_writes d1 = []" "callbacks d1 = []"
    by auto
  show ?thesis
  proof (cases "error res")
    case (Some err)
    then have "refresh c r =
        (Inr \<lparr>endpoint = endpoint res, configuration = JUndefined,
              error = Some err, status = Error\<rparr>, c, r2)"
      using tf by (simp add: refresh_plain [OF plain])
    then show ?thesis
      using d1 by (intro exI [of _ d1]) simp
  next
    case None
    then have run: "refresh c r = pipeline c res r2"
      using tf by (simp add: refresh_plain [OF plain])
    let ?data = "configuration res"
    obtain source w where
      rd: "cache_read (cache c) (world (validate c ?data r2)) = (source, w)"
      by (cases "cache_read (cache c) (world (validate c ?data r2))")
    let ?ev = "pipeline_event c res source"
    have st: "status ?ev \<noteq> Cached" by simp
    from validate_log [of c ?data r2] obtain d2 where
      d2: "trace (validate c ?data r2) = trace r2 @ Validate ?data # d2"
          "cache_writes d2 = []" "callbacks d2 = []"
      by blast
    obtain out w' where cb: "callback c ?ev w = (out, w')"
      by (cases "callback c ?ev w")
    show ?thesis
    proof (cases out)
      case (Resolves v)
      from pipeline_resolved [OF rd cb [unfolded Resolves]] obtain c' r' t where
        p: "pipeline c res r2 =
              (Inr (?ev\<lparr>configuration := js_or v (transformer c ?data)\<rparr>), c', r')"
           "trace r' = trace (validate c ?data r2) @
              [CacheRead, Callback ?ev, CacheWrite (js_or v (transformer c ?data))] @ t"
           "cache_writes t = []" "callbacks t = []" "loaded c'" "override c' = override c"
        by blast
      show ?thesis
        apply (rule exI [of _ "d1 @ Validate ?data # d2 @
            [CacheRead, Callback ?ev, CacheWrite (js_or v (transformer c ?data))] @ t"])
        using run p d1 d2 st by simp
    next
      case (Raises e)
      from pipeline_raised [OF rd cb [unfolded Raises]]
      have p: "pipeline c res r2 =
          (Inl e, c,
           (validate c ?data r2)
             \<lparr>world := w', trace := trace (validate c ?data r2) @ [CacheRead, Callback ?ev]\<rparr>)" .
      show ?thesis
        apply (rule exI [of _ "d1 @ Validate ?data # d2 @ [CacheRead, Callback ?ev]"])
        using run p d1 d2 st by simp
    qed
  qed
qed

lemma getConfiguration_plain_log:
  assumes plain: "\<not> truthy (override c)"
  shows "\<exists>d. trace (snd (snd (getConfiguration c r))) = trace r @ CacheRead # d
          \<and> list_all (\<lambda>ev. status ev \<noteq> Cached) (callbacks d)
          \<and> loaded (fst (snd (getConfiguration c r))) = (loaded c \<or> cache_writes d \<noteq> [])
          \<and> override (fst (snd (getConfiguration c r))) = override c"
proof -
  obtain source w where rd: "cache_read (cache c) (world r) = (source, w)"
    by (cases "cache_read (cache c) (world r)")
  let ?r1 = "r\<lparr>world := w, trace := trace r @ [CacheRead]\<rparr>"
  show ?thesis
  proof (cases "truthy source")
    case True
    then have "getConfiguration c r =
        (Inr \<lparr>endpoint = None, configuration = source, error = None, status = Cached\<rparr>, c, ?r1)"
      using plain rd by (simp add: getConfiguration_def)
    then show ?thesis
      by (intro exI [of _ "[]"]) simp
  next
    case False
    then have run: "getConfiguration c r = refresh c ?r1"
      using plain rd by (simp add: getConfiguration_def)
    from refresh_plain_log [OF plain, of ?r1] obtain d where
      "trace (snd (snd (refresh c ?r1))) = trace ?r1 @ d"
      "list_all (\<lambda>ev. status ev \<noteq> Cached) (callbacks d)"
      "loaded (fst (snd (refresh c ?r1))) = (loaded c \<or> cache_writes d \<noteq> [])"
      "override (fst (snd (refresh c ?r1))) = override c"
      by blast
    then show ?thesis
      using run by (intro exI [of _ d]) simp
  qed
qed

section \<open>A falsy override\<close>

text \<open>
  Claim C10. Let the override of the client be falsy (\<open>0\<close>, the empty string, \<open>false\<close>,
  \<open>null\<close>, or \<open>undefined\<close> for none). Then \<open>refresh\<close> and \<open>getConfiguration\<close> return
  what they return for the same client with no override, and leave the same client
  fields and runtime. \<open>getConfiguration\<close> reads the cache first, returns the cached
  value if it is truthy and calls \<open>refresh\<close> otherwise; \<open>refresh\<close> cancels the timer,
  runs the resolver and then the error branch or the pipeline. In neither is the
  consumer callback given an event of status \<open>cached\<close>, which is what override mode
  gives it. (Claim C6 is the other direction: a truthy override enters override mode.)
\<close>

theorem falsy_override_not_taken:
  assumes falsy: "\<not> truthy (override c)"
  shows "refresh c r =
           (case refresh (c\<lparr>override := JUndefined\<rparr>) r of
              (a, c', r') \<Rightarrow> (a, c'\<lparr>override := override c\<rparr>, r'))
       \<and> getConfiguration c r =
           (case getConfiguration (c\<lparr>override := JUndefined\<rparr>) r of
              (a, c', r') \<Rightarrow> (a, c'\<lparr>override := override c\<rparr>, r'))
       \<and> (\<exists>d. trace (snd (snd (getConfiguration c r))) = trace r @ CacheRead # d
              \<and> list_all (\<lambda>ev. status ev \<noteq> Cached) (callbacks d))
       \<and> (\<exists>d. trace (snd (snd (refresh c r))) = trace r @ d
              \<and> list_all (\<lambda>ev. status ev \<noteq> Cached) (callbacks d))
       \<and> getConfiguration c r =
           (case cache_read (cache c) (world r) of
              (source, w) \<Rightarrow>
                if truthy source
                then (Inr \<lparr>endpoint = None, configuration = source, error = None,
                           status = Cached\<rparr>,
                      c, r\<lparr>world := w, trace := trace r @ [CacheRead]\<rparr>)
                else refresh c (r\<lparr>world := w, trace := trace r @ [CacheRead]\<rparr>))
       \<and> refresh c r =
           (case tryFetch c (snd (setPolling False c r)) of
              (res, r2) \<Rightarrow>
                (case error res of
                   Some err \<Rightarrow>
                     (Inr \<lparr>endpoint = endpoint res, configuration = JUndefined,
                           error = Some err, status = Error\<rparr>,
                      c, r2)
                 | None \<Rightarrow> pipeline c res r2))"
proof (intro conjI)
  show "getConfiguration c r =
      (case cache_read (cache c) (world r) of
         (source, w) \<Rightarrow>
           if truthy source
           then (Inr \<lparr>endpoint = None, configuration = source, error = None,
                      status = Cached\<rparr>,
                 c, r\<lparr>world := w, trace := trace r @ [CacheRead]\<rparr>)
           else refresh c (r\<lparr>world := w, trace := trace r @ [CacheRead]\<rparr>))"
    using falsy by (simp add: getConfiguration_def Let_def)
  show "refresh c r =
      (case tryFetch c (snd (setPolling False c r)) of
         (res, r2) \<Rightarrow>
           (case error res of
              Some err \<Rightarrow>
                (Inr \<lparr>endpoint = endpoint res, configuration = JUndefined,
                      error = Some err, status = Error\<rparr>,
                 c, r2)
            | None \<Rightarrow> pipeline c res r2))"
    by (rule refresh_plain [OF falsy])
  have u: "\<not> truthy (override (c\<lparr>override := JUndefined\<rparr>))" by simp
  from refresh_override [OF u falsy, of r]
  show "refresh c r =
      (case refresh (c\<lparr>override := JUndefined\<rparr>) r of
         (a, c', r') \<Rightarrow> (a, c'\<lparr>override := override c\<rparr>, r'))"
    by simp
  from getConfiguration_override [OF u falsy, of r]
  show "getConfiguration c r =
      (case getConfiguration (c\<lparr>override := JUndefined\<rparr>) r of
         (a, c', r') \<Rightarrow> (a, c'\<lparr>override := override c\<rparr>, r'))"
    by simp
  from getConfiguration_plain_log [OF falsy, of r]
  show "\<exists>d. trace (snd (snd (getConfiguration c r))) = trace r @ CacheRead # d
          \<and> list_all (\<lambda>ev. status ev \<noteq> Cached) (callbacks d)"
    by blast
  from refresh_plain_log [OF falsy, of r]
  show "\<exists>d. trace (snd (snd (refresh c r))) = trace r @ d
          \<and> list_all (\<lambda>ev. status ev \<noteq> Cached) (callbacks d)"
    by blast
qed


text \<open>The override \<open>0\<close>: the three endpoints are tried and the third is loaded.\<close>

theorem falsy_override_not_taken_witness:
  "fst (refresh falsy_override_client fresh_runtime) =
     Inr \<lparr>endpoint = Some ''c'', configuration = testConfig, error = None, status = Loaded\<rparr>
   \<and> refresh falsy_override_client fresh_runtime =
       (case refresh (falsy_override_client\<lparr>override := JUndefined\<rparr>) fresh_runtime of
          (a, c', r') \<Rightarrow> (a, c'\<lparr>override := JNum 0\<rparr>, r'))
   \<and> getConfiguration falsy_override_client fresh_runtime =
       (case getConfiguration (falsy_override_client\<lparr>override := JUndefined\<rparr>) fresh_runtime of
          (a, c', r') \<Rightarrow> (a, c'\<lparr>override := JNum 0\<rparr>, r'))"
proof -
  have f: "\<not> truthy (override falsy_override_client)"
    and o: "override falsy_override_client = JNum 0"
    by (simp_all add: falsy_override_client_def demo_defs)
  have run: "fst (refresh falsy_override_client fresh_runtime) =
     Inr \<lparr>endpoint = Some ''c'', configuration = testConfig, error = None, status = Loaded\<rparr>"
    by (simp add: refresh_def setPolling_def tryFetch_def pipeline_def pipeline_event_def
        validate_def js_or_def falsy_override_client_def demo_defs Let_def)
  from falsy_override_not_taken [OF f, of fresh_runtime] run show ?thesis
    by (simp only: o)
qed

section \<open>The loaded flag over the life of a client\<close>

lemma setPolling_log:
  "\<exists>d. trace (snd (setPolling b c r)) = trace r @ d
     \<and> validations d = [] \<and> validation_reports d = [] \<and> cache_reads d = 0
     \<and> cache_writes d = [] \<and> callbacks d = [] \<and> fetches d = []
     \<and> world (snd (setPolling b c r)) = world r
     \<and> loaded (fst (setPolling b c r)) = loaded c
     \<and> override (fst (setPolling b c r)) = override c"
  by (simp add: setPolling_def setTimeout_def clearTimeout_def split: option.splits)

lemma step_log:
  assumes plain: "\<not> truthy (override c)"
  shows "\<exists>d. trace (snd (step op (c, r))) = trace r @ d
          \<and> loaded (fst (step op (c, r))) = (loaded c \<or> cache_writes d \<noteq> [])
          \<and> override (fst (step op (c, r))) = override c"
proof (cases op)
  case GetConfiguration
  from getConfiguration_plain_log [OF plain, of r] obtain d where
    "trace (snd (snd (getConfiguration c r))) = trace r @ CacheRead # d"
    "loaded (fst (snd (getConfiguration c r))) = (loaded c \<or> cache_writes d \<noteq> [])"
    "override (fst (snd (getConfiguration c r))) = override c"
    by blast
  with GetConfiguration show ?thesis
    by (intro exI [of _ "CacheRead # d"]) simp
next
  case Refresh
  from refresh_plain_log [OF plain, of r] Refresh show ?thesis
    by auto
next
  case Pause
  from setPolling_log [of False "c\<lparr>paused := True\<rparr>" r] Pause show ?thesis
    by (auto simp: pause_def)
next
  case Resume
  from setPolling_log [of True "c\<lparr>paused := False\<rparr>" r] Resume show ?thesis
    by (auto simp: resume_def)
next
  case (TimerFires h)
  show ?thesis
  proof (cases "h \<in> set (timers r)")
    case True
    from refresh_plain_log [OF plain, of "r\<lparr>timers := removeAll h (timers r)\<rparr>"]
      TimerFires True
    show ?thesis by auto
  next
    case False
    with TimerFires show ?thesis by (intro exI [of _ "[]"]) simp
  qed
next
  case (WorldChanges f)
  then show ?thesis by (intro exI [of _ "[]"]) simp
qed

lemma run_log:
  assumes "\<not> truthy (override c)"
  shows "\<exists>d. trace (snd (run ops (c, r))) = trace r @ d
          \<and> loaded (fst (run ops (c, r))) = (loaded c \<or> cache_writes d \<noteq> [])
          \<and> override (fst (run ops (c, r))) = override c"
  using assms
proof (induction ops arbitrary: c r)
  case Nil
  show ?case by (intro exI [of _ "[]"]) simp
next
  case (Cons op ops)
  obtain c1 r1 where s: "step op (c, r) = (c1, r1)"
    by (cases "step op (c, r)")
  from step_log [OF Cons.prems, of op r] s obtain d1 where
    d1: "trace r1 = trace r @ d1" "loaded c1 = (loaded c \<or> cache_writes d1 \<noteq> [])"
        "override c1 = override c"
    by auto
  with Cons.prems have "\<not> truthy (override c1)" by simp
  from Cons.IH [OF this, of r1] obtain d2 where
    d2: "trace (snd (run ops (c1, r1))) = trace r1 @ d2"
        "loaded (fst (run ops (c1, r1))) = (loaded c1 \<or> cache_writes d2 \<noteq> [])"
        "override (fst (run ops (c1, r1))) = override c1"
    by blast
  show ?case
    using s d1 d2 by (intro exI [of _ "d1 @ d2"]) auto
qed

text \<open>No method assigns the override field.\<close>

lemma getOverride_override: "override (fst (snd (getOverride c r))) = override c"
  by (cases "callback c \<lparr>endpoint = None, configuration = override c, error = None,
        status = Cached\<rparr> (world r)")
    (auto simp: getOverride_def Let_def split: outcome.splits)

lemma refresh_keeps_override: "override (fst (snd (refresh c r))) = override c"
proof (cases "truthy (override c)")
  case True
  then show ?thesis by (simp add: refresh_def getOverride_override)
next
  case False
  from refresh_plain_log [OF False, of r] show ?thesis by blast
qed

lemma getConfiguration_keeps_override:
  "override (fst (snd (getConfiguration c r))) = override c"
proof (cases "truthy (override c)")
  case True
  then show ?thesis by (simp add: getConfiguration_def getOverride_override)
next
  case False
  from getConfiguration_plain_log [OF False, of r] show ?thesis by blast
qed

lemma step_keeps_override: "override (fst (step op (c, r))) = override c"
proof (cases op)
  case Pause
  from setPolling_log [of False "c\<lparr>paused := True\<rparr>" r] Pause show ?thesis
    by (auto simp: pause_def)
next
  case Resume
  from setPolling_log [of True "c\<lparr>paused := False\<rparr>" r] Resume show ?thesis
    by (auto simp: resume_def)
qed (simp_all add: refresh_keeps_override getConfiguration_keeps_override)

lemma run_keeps_override: "override (fst (run ops (c, r))) = override c"
proof (induction ops arbitrary: c r)
  case Nil
  show ?case by simp
next
  case (Cons op ops)
  obtain c1 r1 where s: "step op (c, r) = (c1, r1)"
    by (cases "step op (c, r)")
  with step_keeps_override [of op c r] have "override c1 = override c" by simp
  with Cons.IH [of c1 r1] s show ?case by simp
qed

text \<open>The client the constructor returns.\<close>

lemma ConfigClient_new_Inr:
  assumes new: "ConfigClient_new pf options r0 = Inr (c0, r1)"
  obtains c w where "override c = opt_override options" "\<not> loaded c"
    "(c0, r1) = (if opt_initialize options then snd (refresh c (r0\<lparr>world := w\<rparr>))
                 else (c, r0\<lparr>world := w\<rparr>))"
proof -
  obtain the_cache w where
    tc: "(case opt_cache options of
            Some cp \<Rightarrow> (cp, world r0)
          | None \<Rightarrow> DefaultCacheProvider pf (world r0)) = (the_cache, w)"
    by (cases "case opt_cache options of
            Some cp \<Rightarrow> (cp, world r0)
          | None \<Rightarrow> DefaultCacheProvider pf (world r0)")
  from new tc obtain cb where cb: "opt_callback options = Some cb"
    by (cases "opt_callback options")
      (auto simp: ConfigClient_new_def Let_def split: if_splits)
  define c where "c =
     \<lparr>override = opt_override options,
      interval = (case opt_interval options of
                    None \<Rightarrow> None
                  | Some i \<Rightarrow> if i = 0 then None else Some i),
      timeoutId = None,
      endpoints = or_default (opt_endpoints options) [],
      cache = the_cache,
      fetch = or_default (opt_fetch options) (defaultFetchProvider pf),
      equality = or_default (opt_equality options) (isEqual pf),
      transformer = or_default (opt_transformer options) defaultTransformer,
      validator = or_default (opt_validator options) defaultValidator,
      callback = cb,
      onFetchError =
        or_default (opt_onFetchError options)
          (\<lambda>err. or_default (opt_log options) (\<lambda>data w. w) [LoggedFetchError err]),
      onValidationError =
        or_default (opt_onValidationError options)
          (\<lambda>err config. or_default (opt_log options) (\<lambda>data w. w)
             [LoggedValue err, LoggedValue config]),
      onUndefinedError =
        or_default (opt_onConfigurationUndefined options)
          (\<lambda>err. or_default (opt_log options) (\<lambda>data w. w) [LoggedUndefinedError err]),
      loaded = False,
      paused = False\<rparr>"
  have pc: "override c = opt_override options" "\<not> loaded c"
    by (simp_all add: c_def)
  from new tc cb have
    "(c0, r1) = (if opt_initialize options then snd (refresh c (r0\<lparr>world := w\<rparr>))
                 else (c, r0\<lparr>world := w\<rparr>))"
    by (simp add: ConfigClient_new_def Let_def c_def split: if_splits)
  with pc show thesis by (rule that)
qed

lemma ConfigClient_new_log:
  assumes new: "ConfigClient_new pf options r0 = Inr (c0, r1)"
    and plain: "\<not> truthy (opt_override options)"
  shows "override c0 = opt_override options
       \<and> (\<exists>d. trace r1 = trace r0 @ d \<and> loaded c0 = (cache_writes d \<noteq> []))"
proof -
  from ConfigClient_new_Inr [OF new] obtain c w where
    pc: "override c = opt_override options" "\<not> loaded c"
    and res: "(c0, r1) = (if opt_initialize options then snd (refresh c (r0\<lparr>world := w\<rparr>))
                 else (c, r0\<lparr>world := w\<rparr>))"
    by blast
  from pc plain have p: "\<not> truthy (override c)" by simp
  show ?thesis
  proof (cases "opt_initialize options")
    case True
    from refresh_plain_log [OF p, of "r0\<lparr>world := w\<rparr>"] res True pc
    show ?thesis by (auto simp: fst_def snd_def split: prod.splits)
  next
    case False
    with res pc show ?thesis by (intro conjI exI [of _ "[]"]) simp_all
  qed
qed

lemma constructed_override:
  assumes new: "ConfigClient_new pf options r0 = Inr (c0, r1)"
  shows "override (fst (run ops (c0, r1))) = opt_override options"
proof -
  from ConfigClient_new_Inr [OF new] obtain c w where
    pc: "override c = opt_override options"
    and res: "(c0, r1) = (if opt_initialize options then snd (refresh c (r0\<lparr>world := w\<rparr>))
                 else (c, r0\<lparr>world := w\<rparr>))"
    by blast
  have "override c0 = opt_override options"
  proof (cases "opt_initialize options")
    case True
    with res have "c0 = fst (snd (refresh c (r0\<lparr>world := w\<rparr>)))"
      by (metis fst_conv)
    with pc show ?thesis by (simp add: refresh_keeps_override)
  next
    case False
    with res pc show ?thesis by simp
  qed
  then show ?thesis by (simp add: run_keeps_override)
qed

section \<open>The status of a pipeline run\<close>

text \<open>
  Claim C3. Take a client that the constructor built without a truthy override, at a
  time when the call log held no cache write, and any sequence of operations on it and
  of changes of the world since. Its loaded flag is set if and only if a run of the pipeline has gone through
  to the cache write, that is, has completed. In a run of \<open>refresh\<close> that reaches the
  pipeline (the resolver returns a winner \<open>res\<close>; the cache read gives \<open>source\<close>), the
  consumer callback is called once, and the status of its event is \<open>loaded\<close> if no run
  has completed before; otherwise it is \<open>updated\<close> if the equality provider finds the
  transformed candidate different from \<open>source\<close>, and \<open>equal\<close> if not. An event that
  \<open>refresh\<close> returns has that status.
\<close>

theorem refresh_status:
  assumes new: "ConfigClient_new pf options r0 = Inr (c0, r1)"
    and fresh: "completed_runs (trace r0) = 0"
    and plain: "\<not> truthy (opt_override options)"
    and ops: "run ops (c0, r1) = (c, r)"
    and tf: "tryFetch c (snd (setPolling False c r)) = (res, r2)"
    and ok: "error res = None"
    and rd: "cache_read (cache c) (world (validate c (configuration res) r2)) = (source, w)"
  shows "loaded c = (completed_runs (trace r) \<noteq> 0)
       \<and> (\<exists>result c' r' d ev.
             refresh c r = (result, c', r')
           \<and> trace r' = trace r @ d
           \<and> callbacks d = [ev]
           \<and> status ev =
               (if completed_runs (trace r) = 0 then Loaded
                else if \<not> equality c source (transformer c (configuration res)) then Updated
                else Equal)
           \<and> (\<forall>ev'. result = Inr ev' \<longrightarrow> status ev' = status ev))"
proof -
  from ConfigClient_new_log [OF new plain] obtain d0 where
    c0: "override c0 = opt_override options" "trace r1 = trace r0 @ d0"
        "loaded c0 = (cache_writes d0 \<noteq> [])"
    by blast
  with plain have p0: "\<not> truthy (override c0)" by simp
  from run_log [OF p0, of ops r1] ops obtain d1 where
    c1: "trace r = trace r1 @ d1" "loaded c = (loaded c0 \<or> cache_writes d1 \<noteq> [])"
        "override c = override c0"
    by auto
  from c1 p0 have pc: "\<not> truthy (override c)" by simp
  have flag: "loaded c = (completed_runs (trace r) \<noteq> 0)"
    using fresh c0 c1 by (simp add: completed_runs_def)
  let ?data = "configuration res"
  let ?ev = "pipeline_event c res source"
  from refresh_winner [OF pc tf ok] obtain e1 where
    run: "refresh c r = pipeline c res r2"
    and e1: "trace r2 = trace r @ e1" "callbacks e1 = []"
    by blast
  from validate_log [of c ?data r2] obtain e2 where
    e2: "trace (validate c ?data r2) = trace r2 @ Validate ?data # e2" "callbacks e2 = []"
    by blast
  have st: "status ?ev =
      (if completed_runs (trace r) = 0 then Loaded
       else if \<not> equality c source (transformer c ?data) then Updated else Equal)"
    using flag by simp
  obtain out w' where cb: "callback c ?ev w = (out, w')"
    by (cases "callback c ?ev w")
  have "\<exists>result c' r' d.
          refresh c r = (result, c', r') \<and> trace r' = trace r @ d \<and> callbacks d = [?ev]
        \<and> (\<forall>ev'. result = Inr ev' \<longrightarrow> status ev' = status ?ev)"
  proof (cases out)
    case (Resolves v)
    from pipeline_resolved [OF rd cb [unfolded Resolves]] obtain c' r' t where
      p: "pipeline c res r2 =
            (Inr (?ev\<lparr>configuration := js_or v (transformer c ?data)\<rparr>), c', r')"
         "trace r' = trace (validate c ?data r2) @
            [CacheRead, Callback ?ev, CacheWrite (js_or v (transformer c ?data))] @ t"
         "callbacks t = []"
      by blast
    show ?thesis
      apply (intro exI [of _ "Inr (?ev\<lparr>configuration := js_or v (transformer c ?data)\<rparr>)"]
          exI [of _ c'] exI [of _ r'])
      apply (rule exI [of _ "e1 @ Validate ?data # e2 @
          [CacheRead, Callback ?ev, CacheWrite (js_or v (transformer c ?data))] @ t"])
      using run p e1 e2 by simp
  next
    case (Raises e)
    from pipeline_raised [OF rd cb [unfolded Raises]]
    have p: "pipeline c res r2 =
        (Inl e, c,
         (validate c ?data r2)
           \<lparr>world := w', trace := trace (validate c ?data r2) @ [CacheRead, Callback ?ev]\<rparr>)" .
    show ?thesis
      apply (intro exI [of _ "Inl e"] exI [of _ c])
      apply (rule exI [of _ "(validate c ?data r2)
           \<lparr>world := w', trace := trace (validate c ?data r2) @ [CacheRead, Callback ?ev]\<rparr>"])
      apply (rule exI [of _ "e1 @ Validate ?data # e2 @ [CacheRead, Callback ?ev]"])
      using run p e1 e2 by simp
  qed
  with flag st show ?thesis by metis
qed

text \<open>The test client, built by the constructor, before and after a first refresh.\<close>

lemma demo_client_new:
  "ConfigClient_new slot_platform demo_options fresh_runtime = Inr (demo_client, fresh_runtime)"
  by (simp add: ConfigClient_new_def demo_options_def slot_platform_def fresh_runtime_def
      demo_client_def or_default_def DefaultCacheProvider_def defaultFetchProvider_def Let_def)


lemma demo_after_refresh:
  "run [Refresh] (demo_client, fresh_runtime) =
     (demo_client\<lparr>loaded := True\<rparr>,
      demo_fetched_runtime
        \<lparr>world := testConfig,
         trace := trace demo_fetched_runtime @
           [Validate testConfig, CacheRead,
            Callback \<lparr>endpoint = Some ''c'', configuration = testConfig, error = None,
                      status = Loaded\<rparr>,
            CacheWrite testConfig]\<rparr>)"
  by (simp add: refresh_def setPolling_def tryFetch_def pipeline_def pipeline_event_def
      validate_def js_or_def demo_defs demo_fetched_runtime_def Let_def)

theorem refresh_status_witness:
  "(\<exists>result c' r' d ev.
      refresh demo_client fresh_runtime = (result, c', r')
    \<and> trace r' = trace fresh_runtime @ d
    \<and> callbacks d = [ev]
    \<and> status ev = Loaded)
 \<and> (\<exists>result c' r' d ev.
      refresh (fst (run [Refresh] (demo_client, fresh_runtime)))
        (snd (run [Refresh] (demo_client, fresh_runtime))) = (result, c', r')
    \<and> trace r' = trace (snd (run [Refresh] (demo_client, fresh_runtime))) @ d
    \<and> callbacks d = [ev]
    \<and> status ev = Equal)"
proof
  have tf: "tryFetch demo_client (snd (setPolling False demo_client fresh_runtime)) =
      (demo_fetched, demo_fetched_runtime)"
    using demo_resolver [where cb = echo_callback and vd = defaultValidator
        and tr = defaultTransformer]
    by (simp add: demo_client_def)
  have "completed_runs (trace fresh_runtime) = 0" "\<not> truthy (opt_override demo_options)"
    "run [] (demo_client, fresh_runtime) = (demo_client, fresh_runtime)"
    "error demo_fetched = None"
    by (simp_all add: completed_runs_def demo_defs demo_options_def demo_fetched_def)
  from refresh_status [OF demo_client_new this(1,2,3) tf this(4), of JUndefined JUndefined]
  show "\<exists>result c' r' d ev.
      refresh demo_client fresh_runtime = (result, c', r')
    \<and> trace r' = trace fresh_runtime @ d
    \<and> callbacks d = [ev]
    \<and> status ev = Loaded"
    by (simp add: completed_runs_def demo_defs demo_fetched_def demo_fetched_runtime_def
        validate_def) blast
next
  let ?c = "demo_client\<lparr>loaded := True\<rparr>"
  let ?r = "demo_fetched_runtime
        \<lparr>world := testConfig,
         trace := trace demo_fetched_runtime @
           [Validate testConfig, CacheRead,
            Callback \<lparr>endpoint = Some ''c'', configuration = testConfig, error = None,
                      status = Loaded\<rparr>,
            CacheWrite testConfig]\<rparr>"
  let ?r2 = "?r\<lparr>trace := trace ?r @ trace demo_fetched_runtime\<rparr>"
  have tf: "tryFetch ?c (snd (setPolling False ?c ?r)) = (demo_fetched, ?r2)"
    by (simp add: setPolling_False tryFetch_def demo_defs demo_fetched_def
        demo_fetched_runtime_def)
  have "completed_runs (trace fresh_runtime) = 0" "\<not> truthy (opt_override demo_options)"
    "error demo_fetched = None"
    by (simp_all add: completed_runs_def demo_defs demo_options_def demo_fetched_def)
  from refresh_status [OF demo_client_new this(1,2) demo_after_refresh tf this(3),
      of testConfig testConfig]
  show "\<exists>result c' r' d ev.
      refresh (fst (run [Refresh] (demo_client, fresh_runtime)))
        (snd (run [Refresh] (demo_client, fresh_runtime))) = (result, c', r')
    \<and> trace r' = trace (snd (run [Refresh] (demo_client, fresh_runtime))) @ d
    \<and> callbacks d = [ev]
    \<and> status ev = Equal"
    apply (simp only: demo_after_refresh fst_conv snd_conv)
    apply (simp add: completed_runs_def demo_defs demo_fetched_def
        demo_fetched_runtime_def validate_def)
    apply blast
    done
qed

section \<open>Timers\<close>

text \<open>
  \<open>refresh\<close> calls \<open>setPolling(false)\<close> before anything else and \<open>setPolling(true)\<close> at
  its end: if no timer but the one whose handle is stored is live when it starts, at most
  one timer is live when it returns.
\<close>

lemma validate_timers [simp]: "timers (validate c d r) = timers r"
  by (cases "validator c d (world r)") (auto simp: validate_def split: outcome.splits)

lemma setPolling_timers:
  "length (timers (snd (setPolling b c r))) \<le> Suc (length (timers r))"
  by (auto simp: setPolling_def setTimeout_def clearTimeout_def le_SucI
      split: option.splits)

lemma pipeline_timers:
  "length (timers (snd (snd (pipeline c res r)))) \<le> Suc (length (timers r))"
proof -
  let ?r1 = "validate c (configuration res) r"
  obtain source w where rd: "cache_read (cache c) (world ?r1) = (source, w)"
    by (cases "cache_read (cache c) (world ?r1)")
  let ?ev = "pipeline_event c res source"
  obtain out w' where cb: "callback c ?ev w = (out, w')"
    by (cases "callback c ?ev w")
  show ?thesis
  proof (cases out)
    case (Raises e)
    with rd cb show ?thesis by (simp add: pipeline_raised)
  next
    case (Resolves v)
    let ?final = "js_or v (configuration ?ev)"
    let ?r3 = "?r1\<lparr>world := cache_write (cache c) ?final w',
                    trace := trace ?r1 @ [CacheRead, Callback ?ev, CacheWrite ?final]\<rparr>"
    let ?c1 = "c\<lparr>loaded := True\<rparr>"
    show ?thesis
    proof (cases "paused c")
      case True
      with rd cb Resolves show ?thesis by (simp add: pipeline_def Let_def)
    next
      case False
      with rd cb Resolves
      have "snd (snd (pipeline c res r)) = snd (setPolling True ?c1 ?r3)"
        by (simp add: pipeline_def Let_def split: prod.splits)
      with setPolling_timers [of True ?c1 ?r3] show ?thesis by simp
    qed
  qed
qed

lemma refresh_cancels_first:
  assumes plain: "\<not> truthy (override c)"
    and stored: "set (timers r) \<subseteq> set_option (timeoutId c)"
  shows "length (timers (snd (snd (refresh c r)))) \<le> 1"
proof -
  let ?r1 = "snd (setPolling False c r)"
  have none: "timers ?r1 = []"
  proof (cases "timeoutId c")
    case None
    with stored show ?thesis by (simp add: setPolling_False)
  next
    case (Some h)
    with stored have "removeAll h (timers r) = []"
      by (auto simp: removeAll_id filter_empty_conv removeAll_filter_not_eq)
    with Some show ?thesis by (simp add: setPolling_False clearTimeout_def)
  qed
  obtain res r2 where tf: "tryFetch c ?r1 = (res, r2)"
    by (cases "tryFetch c ?r1")
  from tryFetch_log [of c ?r1] tf none have t2: "timers r2 = []" by auto
  show ?thesis
  proof (cases "error res")
    case (Some err)
    with tf t2 show ?thesis by (simp add: refresh_plain [OF plain])
  next
    case None
    with tf have "refresh c r = pipeline c res r2" by (simp add: refresh_plain [OF plain])
    with pipeline_timers [of c res r2] t2 show ?thesis by simp
  qed
qed

text \<open>
  Claim C4 says that at most one timer is live at a time, and in particular after
  \<open>resume\<close> on a client whose timer is live. Unlike \<open>refresh\<close>, \<open>resume\<close> calls only
  \<open>setPolling(true)\<close>, which calls \<open>setTimeout\<close> without clearing the handle it has
  stored. For the test client with an interval of 5
  seconds: after a refresh one timer is live; after \<open>resume\<close> two are, and no timer has
  been cleared; a second \<open>resume\<close> makes them three. \<open>pause\<close> then clears only the
  handle stored last, the first timer stays live, and when it fires the endpoints are
  fetched again although the client is paused.
\<close>

theorem resume_leaves_two_timers:
  "timers (snd (run [Refresh] (polling_client, fresh_runtime))) = [1]
 \<and> timers (snd (run [Refresh, Resume] (polling_client, fresh_runtime))) = [1, 2]
 \<and> timeouts_set (trace (snd (run [Refresh, Resume] (polling_client, fresh_runtime)))) =
     [(1, 5000), (2, 5000)]
 \<and> timeouts_cleared (trace (snd (run [Refresh, Resume] (polling_client, fresh_runtime)))) = []
 \<and> timers (snd (run [Refresh, Resume, Resume] (polling_client, fresh_runtime))) = [1, 2, 3]
 \<and> timers (snd (run [Refresh, Resume, Pause] (polling_client, fresh_runtime))) = [1]
 \<and> fetches (trace (snd (run [Refresh, Resume, Pause, TimerFires 1]
       (polling_client, fresh_runtime)))) = [''a'', ''b'', ''c'', ''a'', ''b'', ''c'']"
  by (simp add: refresh_def resume_def pause_def setPolling_def setTimeout_def clearTimeout_def
      tryFetch_def pipeline_def pipeline_event_def validate_def js_or_def polling_client_def
      timeouts_set_def timeouts_cleared_def fetches_def demo_defs Let_def)

end
